theory Spec2Isabelle
  imports Complex_Main
begin

section \<open>Data model (types.ts)\<close>

text \<open>
  The drawing engine of \<^verbatim>\<open>packages/core\<close>, embedded function by function.
  A JavaScript \<^verbatim>\<open>number\<close> is modelled as a real number: coordinates, pixel
  distances, timestamps and zIndex values are exact, so rounding, infinities and NaN of
  IEEE doubles are outside the model. Objects are values: \<^verbatim>\<open>cloneEntity\<close> copies
  are equal to their originals, and no two lists share mutable cells.
  Optional properties (\<^verbatim>\<open>text?\<close>, \<^verbatim>\<open>shiftKey?\<close>) are \<open>option\<close> fields.
\<close>

type_synonym toolId = string

datatype drawingLineStyle = Solid | Dashed | Dotted

record drawingPoint =
  logical :: real
  price :: real

record drawingStyle =
  strokeColor :: string
  fillColor :: string
  textColor :: string
  lineWidth :: real
  lineStyle :: drawingLineStyle
  opacity :: real
  showLabel :: bool

text \<open>\<^verbatim>\<open>Partial<DrawingStyle>\<close>: every property may be absent.\<close>

record partialStyle =
  strokeColor_opt :: "string option"
  fillColor_opt :: "string option"
  textColor_opt :: "string option"
  lineWidth_opt :: "real option"
  lineStyle_opt :: "drawingLineStyle option"
  opacity_opt :: "real option"
  showLabel_opt :: "bool option"

text \<open>
  \<^verbatim>\<open>DrawingEntity\<close>. The fields \<^verbatim>\<open>id\<close> and \<^verbatim>\<open>text\<close> are written
  \<open>id_ent\<close> and \<open>text_ent\<close>; the values of the open \<^verbatim>\<open>metadata\<close> bag are opaque
  and kept as strings.
\<close>

record drawingEntity =
  id_ent :: string
  tool :: toolId
  points :: "drawingPoint list"
  style :: drawingStyle
  text_ent :: "string option"
  visible :: bool
  locked :: bool
  groupId :: "string option"
  zIndex :: real
  metadata :: "(string \<times> string) list option"
  createdAt :: real
  updatedAt :: real

record engineViewport =
  logicalPerPixel :: real
  pricePerPixel :: real

datatype pointerType = Mouse | Touch | Pen

record pointerInput =
  x_inp :: real
  y_inp :: real
  logical_inp :: real
  price_inp :: real
  viewport :: engineViewport
  pointerId :: "real option"
  pointerType_inp :: "pointerType option"
  button :: "real option"
  shiftKey :: "bool option"
  altKey :: "bool option"
  ctrlKey :: "bool option"
  metaKey :: "bool option"

record keyboardInput =
  key :: string
  shiftKey_kb :: "bool option"
  altKey_kb :: "bool option"
  ctrlKey_kb :: "bool option"
  metaKey_kb :: "bool option"

text \<open>A JavaScript condition on an optional boolean: \<^verbatim>\<open>undefined\<close> is falsy.\<close>

definition truthy :: "bool option \<Rightarrow> bool" where
  "truthy b = (case b of None \<Rightarrow> False | Some v \<Rightarrow> v)"

record toolDefinition =
  id_tool :: toolId
  minPoints :: real
  maxPoints :: real
  continuous :: "bool option"
  defaultStyle_tool :: "partialStyle option"
  normalize :: "(drawingEntity \<Rightarrow> drawingEntity) option"

datatype snapMode = SnapOff | SnapWeak | SnapStrong

record engineOptions =
  initialTool :: toolId
  defaultStyle :: drawingStyle
  historyLimit :: real
  hitTolerancePxMouse :: real
  hitTolerancePxTouch :: real
  snapMode_opt :: snapMode
  emitOnAnimationFrame :: bool
  enableHoldToDraw :: bool
  holdToDrawMs :: real
  holdMoveTolerancePx :: real

text \<open>\<^verbatim>\<open>Partial<EngineOptions>\<close>, the argument of the constructor and of \<^verbatim>\<open>setOptions\<close>.\<close>

record partialOptions =
  initialTool_p :: "toolId option"
  defaultStyle_p :: "partialStyle option"
  historyLimit_p :: "real option"
  hitTolerancePxMouse_p :: "real option"
  hitTolerancePxTouch_p :: "real option"
  snapMode_p :: "snapMode option"
  emitOnAnimationFrame_p :: "bool option"
  enableHoldToDraw_p :: "bool option"
  holdToDrawMs_p :: "real option"
  holdMoveTolerancePx_p :: "real option"

record historyFrame =
  label :: string
  before :: "drawingEntity list"
  after :: "drawingEntity list"
  at_time :: real

record snapshotPrefs =
  activeTool_pref :: toolId
  snapMode_pref :: snapMode

text \<open>
  \<^verbatim>\<open>DrawingSnapshotV1\<close>. The type fixes \<^verbatim>\<open>version\<close> to the literal "1"; the
  import checks it at run time, so the model keeps it a string.
\<close>

record drawingSnapshot =
  version :: string
  drawings_snap :: "drawingEntity list"
  groups :: "(string \<times> string option) list"
  prefs :: snapshotPrefs

section \<open>Geometry and hit-testing (geometry.ts)\<close>

record modelBBox =
  minLogical :: real
  maxLogical :: real
  minPrice :: real
  maxPrice :: real

datatype hitKind = Body | Handle

record hitTestResult =
  kind :: hitKind
  handleIndex :: "nat option"

definition EPS :: real where
  "EPS = 1 / 10 ^ 9"

definition TEXT_BOX_WIDTH_PX :: real where
  "TEXT_BOX_WIDTH_PX = 130"

definition TEXT_BOX_HEIGHT_PX :: real where
  "TEXT_BOX_HEIGHT_PX = 44"

text \<open>\<^verbatim>\<open>Math.hypot\<close> of two arguments.\<close>

definition hypot :: "real \<Rightarrow> real \<Rightarrow> real" where
  "hypot dx dy = sqrt (dx * dx + dy * dy)"

definition normalizeBBox :: "modelBBox \<Rightarrow> modelBBox" where
  "normalizeBBox bbox =
     \<lparr> minLogical = min (minLogical bbox) (maxLogical bbox),
       maxLogical = max (minLogical bbox) (maxLogical bbox),
       minPrice = min (minPrice bbox) (maxPrice bbox),
       maxPrice = max (minPrice bbox) (maxPrice bbox) \<rparr>"

text \<open>The loop of \<^verbatim>\<open>bboxFromPoints\<close> widens the box point by point.\<close>

fun bboxLoop :: "modelBBox \<Rightarrow> drawingPoint list \<Rightarrow> modelBBox" where
  "bboxLoop acc [] = acc"
| "bboxLoop acc (point # rest) =
     bboxLoop \<lparr> minLogical = min (minLogical acc) (logical point),
                maxLogical = max (maxLogical acc) (logical point),
                minPrice = min (minPrice acc) (price point),
                maxPrice = max (maxPrice acc) (price point) \<rparr> rest"

definition bboxFromPoints :: "drawingPoint list \<Rightarrow> modelBBox" where
  "bboxFromPoints pts =
     (case pts of
        [] \<Rightarrow> \<lparr> minLogical = 0, maxLogical = 0, minPrice = 0, maxPrice = 0 \<rparr>
      | first # _ \<Rightarrow>
          bboxLoop \<lparr> minLogical = logical first, maxLogical = logical first,
                     minPrice = price first, maxPrice = price first \<rparr> pts)"

definition expandBBoxByPixels :: "modelBBox \<Rightarrow> engineViewport \<Rightarrow> real \<Rightarrow> modelBBox" where
  "expandBBoxByPixels bbox vp pixels =
     (let logicalPadding = max (logicalPerPixel vp * pixels) EPS;
          pricePadding = max (pricePerPixel vp * pixels) EPS
      in \<lparr> minLogical = minLogical bbox - logicalPadding,
           maxLogical = maxLogical bbox + logicalPadding,
           minPrice = minPrice bbox - pricePadding,
           maxPrice = maxPrice bbox + pricePadding \<rparr>)"

definition entityBBox :: "drawingEntity \<Rightarrow> engineViewport \<Rightarrow> modelBBox" where
  "entityBBox entity vp =
     (let bbox = bboxFromPoints (points entity) in
      case points entity of
        [] \<Rightarrow> bbox
      | p0 # _ \<Rightarrow>
          if tool entity = ''horizontal_line'' then
            \<lparr> minLogical = minLogical bbox - logicalPerPixel vp * 4,
              maxLogical = maxLogical bbox + logicalPerPixel vp * 4,
              minPrice = price p0, maxPrice = price p0 \<rparr>
          else if tool entity = ''vertical_line'' then
            \<lparr> minLogical = logical p0, maxLogical = logical p0,
              minPrice = minPrice bbox - pricePerPixel vp * 4,
              maxPrice = maxPrice bbox + pricePerPixel vp * 4 \<rparr>
          else if tool entity = ''text'' then
            \<lparr> minLogical = logical p0,
              maxLogical = logical p0 + logicalPerPixel vp * TEXT_BOX_WIDTH_PX,
              minPrice = price p0 - pricePerPixel vp * TEXT_BOX_HEIGHT_PX,
              maxPrice = price p0 \<rparr>
          else bbox)"

definition translatePoint :: "drawingPoint \<Rightarrow> drawingPoint \<Rightarrow> drawingPoint" where
  "translatePoint point delta =
     \<lparr> logical = logical point + logical delta, price = price point + price delta \<rparr>"

definition distPointPx :: "drawingPoint \<Rightarrow> drawingPoint \<Rightarrow> engineViewport \<Rightarrow> real" where
  "distPointPx a b vp =
     hypot ((logical a - logical b) / max (logicalPerPixel vp) EPS)
           ((price a - price b) / max (pricePerPixel vp) EPS)"

definition clamp :: "real \<Rightarrow> real \<Rightarrow> real \<Rightarrow> real" where
  "clamp v lo hi = max lo (min hi v)"

text \<open>
  The three distance functions differ only in how the projection parameter \<open>t\<close> is
  restricted: clamped to the segment, cut at the start of the ray, or free on the line.
\<close>

definition segmentDistancePx ::
  "drawingPoint \<Rightarrow> drawingPoint \<Rightarrow> drawingPoint \<Rightarrow> engineViewport \<Rightarrow> real" where
  "segmentDistancePx p a b vp =
     (let dx = logical b - logical a; dy = price b - price a; denom = dx * dx + dy * dy in
      if denom < EPS then distPointPx p a vp
      else
        let t = clamp (((logical p - logical a) * dx + (price p - price a) * dy) / denom) 0 1
        in distPointPx p \<lparr> logical = logical a + t * dx, price = price a + t * dy \<rparr> vp)"

definition rayDistancePx ::
  "drawingPoint \<Rightarrow> drawingPoint \<Rightarrow> drawingPoint \<Rightarrow> engineViewport \<Rightarrow> real" where
  "rayDistancePx p a b vp =
     (let dx = logical b - logical a; dy = price b - price a; denom = dx * dx + dy * dy in
      if denom < EPS then distPointPx p a vp
      else
        let t = max (((logical p - logical a) * dx + (price p - price a) * dy) / denom) 0
        in distPointPx p \<lparr> logical = logical a + t * dx, price = price a + t * dy \<rparr> vp)"

definition lineDistancePx ::
  "drawingPoint \<Rightarrow> drawingPoint \<Rightarrow> drawingPoint \<Rightarrow> engineViewport \<Rightarrow> real" where
  "lineDistancePx p a b vp =
     (let dx = logical b - logical a; dy = price b - price a; denom = dx * dx + dy * dy in
      if denom < EPS then distPointPx p a vp
      else
        let t = ((logical p - logical a) * dx + (price p - price a) * dy) / denom
        in distPointPx p \<lparr> logical = logical a + t * dx, price = price a + t * dy \<rparr> vp)"

definition nearRectEdge ::
  "drawingPoint \<Rightarrow> drawingPoint \<Rightarrow> drawingPoint \<Rightarrow> engineViewport \<Rightarrow> real \<Rightarrow> bool" where
  "nearRectEdge p a b vp tolerancePx =
     (let minL = min (logical a) (logical b); maxL = max (logical a) (logical b);
          minP = min (price a) (price b); maxP = max (price a) (price b);
          leftA = \<lparr> logical = minL, price = minP \<rparr>; leftB = \<lparr> logical = minL, price = maxP \<rparr>;
          rightA = \<lparr> logical = maxL, price = minP \<rparr>; rightB = \<lparr> logical = maxL, price = maxP \<rparr>;
          topA = \<lparr> logical = minL, price = maxP \<rparr>; topB = \<lparr> logical = maxL, price = maxP \<rparr>;
          bottomA = \<lparr> logical = minL, price = minP \<rparr>; bottomB = \<lparr> logical = maxL, price = minP \<rparr>
      in segmentDistancePx p leftA leftB vp \<le> tolerancePx
         \<or> segmentDistancePx p rightA rightB vp \<le> tolerancePx
         \<or> segmentDistancePx p topA topB vp \<le> tolerancePx
         \<or> segmentDistancePx p bottomA bottomB vp \<le> tolerancePx)"

definition isLineTool :: "toolId \<Rightarrow> bool" where
  "isLineTool t =
     (t = ''trend_line'' \<or> t = ''arrow'' \<or> t = ''ruler'' \<or> t = ''fibonacci''
      \<or> t = ''ray'' \<or> t = ''extended_line'')"

text \<open>
  The first loop of \<^verbatim>\<open>hitTestEntity\<close>: the handles in order, counting the index; the
  first one within tolerance ends the search.
\<close>

fun handleLoop ::
  "drawingPoint list \<Rightarrow> nat \<Rightarrow> drawingPoint \<Rightarrow> engineViewport \<Rightarrow> real \<Rightarrow> nat option" where
  "handleLoop [] index point vp tolerancePx = None"
| "handleLoop (handle # rest) index point vp tolerancePx =
     (if distPointPx point handle vp \<le> tolerancePx then Some index
      else handleLoop rest (Suc index) point vp tolerancePx)"

text \<open>The loop over the consecutive segments of a freehand stroke.\<close>

fun brushLoop :: "drawingPoint list \<Rightarrow> drawingPoint \<Rightarrow> engineViewport \<Rightarrow> real \<Rightarrow> bool" where
  "brushLoop (prevP # currP # rest) point vp tolerancePx =
     (if segmentDistancePx point prevP currP vp \<le> tolerancePx then True
      else brushLoop (currP # rest) point vp tolerancePx)"
| "brushLoop _ point vp tolerancePx = False"

text \<open>
  The body tests of \<^verbatim>\<open>hitTestEntity\<close> in source order. Every successful test
  returns the same body hit, and a test that fails falls through to the next one.
\<close>

definition lineBodyHit :: "drawingEntity \<Rightarrow> drawingPoint \<Rightarrow> engineViewport \<Rightarrow> real \<Rightarrow> bool" where
  "lineBodyHit entity point vp tolerancePx =
     (case points entity of
        a # b # _ \<Rightarrow>
          isLineTool (tool entity) \<and>
          ((tool entity = ''ray'' \<and> rayDistancePx point a b vp \<le> tolerancePx)
           \<or> (tool entity = ''extended_line'' \<and> lineDistancePx point a b vp \<le> tolerancePx)
           \<or> segmentDistancePx point a b vp \<le> tolerancePx)
      | _ \<Rightarrow> False)"

definition bandBodyHit :: "drawingEntity \<Rightarrow> drawingPoint \<Rightarrow> engineViewport \<Rightarrow> real \<Rightarrow> bool" where
  "bandBodyHit entity point vp tolerancePx =
     (case points entity of
        [] \<Rightarrow> False
      | p0 # _ \<Rightarrow>
          (tool entity = ''horizontal_line''
             \<and> \<bar>(price point - price p0) / max (pricePerPixel vp) EPS\<bar> \<le> tolerancePx)
          \<or> (tool entity = ''vertical_line''
             \<and> \<bar>(logical point - logical p0) / max (logicalPerPixel vp) EPS\<bar> \<le> tolerancePx))"

definition rectBodyHit :: "drawingEntity \<Rightarrow> drawingPoint \<Rightarrow> engineViewport \<Rightarrow> real \<Rightarrow> bool" where
  "rectBodyHit entity point vp tolerancePx =
     (case points entity of
        a # b # _ \<Rightarrow> tool entity = ''rectangle'' \<and> nearRectEdge point a b vp tolerancePx
      | _ \<Rightarrow> False)"

definition textBodyHit :: "drawingEntity \<Rightarrow> drawingPoint \<Rightarrow> engineViewport \<Rightarrow> bool" where
  "textBodyHit entity point vp =
     (case points entity of
        [] \<Rightarrow> False
      | anchor # _ \<Rightarrow>
          tool entity = ''text''
          \<and> (logical point \<ge> logical anchor
               \<and> logical point \<le> logical anchor + logicalPerPixel vp * TEXT_BOX_WIDTH_PX)
          \<and> (price point \<le> price anchor
               \<and> price point \<ge> price anchor - pricePerPixel vp * TEXT_BOX_HEIGHT_PX))"

definition hitTestEntity ::
  "drawingEntity \<Rightarrow> drawingPoint \<Rightarrow> engineViewport \<Rightarrow> real \<Rightarrow> hitTestResult option" where
  "hitTestEntity entity point vp tolerancePx =
     (if \<not> visible entity then None
      else case handleLoop (points entity) 0 point vp tolerancePx of
        Some index \<Rightarrow> Some \<lparr> kind = Handle, handleIndex = Some index \<rparr>
      | None \<Rightarrow>
          if lineBodyHit entity point vp tolerancePx then Some \<lparr> kind = Body, handleIndex = None \<rparr>
          else if bandBodyHit entity point vp tolerancePx then Some \<lparr> kind = Body, handleIndex = None \<rparr>
          else if rectBodyHit entity point vp tolerancePx then Some \<lparr> kind = Body, handleIndex = None \<rparr>
          else if tool entity = ''brush'' \<and> brushLoop (points entity) point vp tolerancePx
            then Some \<lparr> kind = Body, handleIndex = None \<rparr>
          else if textBodyHit entity point vp then Some \<lparr> kind = Body, handleIndex = None \<rparr>
          else None)"

definition rectContainsBBox :: "modelBBox \<Rightarrow> modelBBox \<Rightarrow> bool" where
  "rectContainsBBox selectionBox entityBox =
     (let normalizedSelection = normalizeBBox selectionBox in
      minLogical entityBox \<ge> minLogical normalizedSelection
      \<and> maxLogical entityBox \<le> maxLogical normalizedSelection
      \<and> minPrice entityBox \<ge> minPrice normalizedSelection
      \<and> maxPrice entityBox \<le> maxPrice normalizedSelection)"

definition equalPoints :: "drawingPoint \<Rightarrow> drawingPoint \<Rightarrow> engineViewport \<Rightarrow> real \<Rightarrow> bool" where
  "equalPoints a b vp px = (distPointPx a b vp \<le> px)"

section \<open>History store (history.ts)\<close>

text \<open>
  \<^verbatim>\<open>cloneEntity\<close> rebuilds the entity with a fresh point list and style. On values
  the copy is the entity itself (lemma \<open>cloneEntity_ident\<close> below); the definition is kept so
  that every place where the source clones is visible in the model.
\<close>

definition cloneEntity :: "drawingEntity \<Rightarrow> drawingEntity" where
  "cloneEntity entity =
     entity \<lparr> points := map (\<lambda>point. \<lparr> logical = logical point, price = price point \<rparr>) (points entity),
              style := style entity,
              metadata := (case metadata entity of None \<Rightarrow> None | Some m \<Rightarrow> Some m) \<rparr>"

definition cloneEntities :: "drawingEntity list \<Rightarrow> drawingEntity list" where
  "cloneEntities entities = map cloneEntity entities"

text \<open>
  \<^verbatim>\<open>HistoryStore\<close>. Both stacks are JavaScript arrays used from their end:
  \<^verbatim>\<open>push\<close> appends, \<^verbatim>\<open>pop\<close> takes the last element, \<^verbatim>\<open>shift\<close> drops the first.
\<close>

record historyStore =
  undoStack :: "historyFrame list"
  redoStack :: "historyFrame list"
  limit :: real

definition history_push :: "historyFrame \<Rightarrow> historyStore \<Rightarrow> historyStore" where
  "history_push frame h =
     (let pushed = undoStack h @ [frame] in
      h \<lparr> undoStack := (if real (length pushed) > limit h then tl pushed else pushed),
          redoStack := [] \<rparr>)"

definition history_undo :: "historyStore \<Rightarrow> historyFrame option \<times> historyStore" where
  "history_undo h =
     (if undoStack h = [] then (None, h)
      else let frame = last (undoStack h) in
           (Some frame, h \<lparr> undoStack := butlast (undoStack h), redoStack := redoStack h @ [frame] \<rparr>))"

definition history_redo :: "historyStore \<Rightarrow> historyFrame option \<times> historyStore" where
  "history_redo h =
     (if redoStack h = [] then (None, h)
      else let frame = last (redoStack h) in
           (Some frame, h \<lparr> redoStack := butlast (redoStack h), undoStack := undoStack h @ [frame] \<rparr>))"

definition history_clear :: "historyStore \<Rightarrow> historyStore" where
  "history_clear h = h \<lparr> undoStack := [], redoStack := [] \<rparr>"

definition history_depth :: "historyStore \<Rightarrow> nat \<times> nat" where
  "history_depth h = (length (undoStack h), length (redoStack h))"

section \<open>Built-in tools and defaults (tools.ts, defaults.ts)\<close>

definition mkTool :: "toolId \<Rightarrow> real \<Rightarrow> real \<Rightarrow> bool option \<Rightarrow> toolDefinition" where
  "mkTool i lo hi c =
     \<lparr> id_tool = i, minPoints = lo, maxPoints = hi, continuous = c,
       defaultStyle_tool = None, normalize = None \<rparr>"

definition BUILTIN_TOOLS :: "toolDefinition list" where
  "BUILTIN_TOOLS =
     [ mkTool ''cursor'' 0 0 None,
       mkTool ''trend_line'' 2 2 None,
       mkTool ''horizontal_line'' 1 1 None,
       mkTool ''vertical_line'' 1 1 None,
       mkTool ''ray'' 2 2 None,
       mkTool ''extended_line'' 2 2 None,
       mkTool ''rectangle'' 2 2 None,
       mkTool ''arrow'' 2 2 None,
       mkTool ''ruler'' 2 2 None,
       mkTool ''fibonacci'' 2 2 None,
       mkTool ''brush'' 2 5000 (Some True),
       mkTool ''text'' 1 1 None ]"

definition DEFAULT_STYLE :: drawingStyle where
  "DEFAULT_STYLE =
     \<lparr> strokeColor = ''#2a7fff'', fillColor = ''rgba(42, 127, 255, 0.16)'',
       textColor = ''#101820'', lineWidth = 2, lineStyle = Solid, opacity = 1,
       showLabel = True \<rparr>"

definition DEFAULT_OPTIONS :: engineOptions where
  "DEFAULT_OPTIONS =
     \<lparr> initialTool = ''cursor'', defaultStyle = DEFAULT_STYLE, historyLimit = 300,
       hitTolerancePxMouse = 6, hitTolerancePxTouch = 14, snapMode_opt = SnapWeak,
       emitOnAnimationFrame = True, enableHoldToDraw = True, holdToDrawMs = 180,
       holdMoveTolerancePx = 6 \<rparr>"

text \<open>The object spread \<^verbatim>\<open>{...base, ...partial}\<close>: a present property overrides.\<close>

definition orElse :: "'a option \<Rightarrow> 'a \<Rightarrow> 'a" where
  "orElse v d = (case v of None \<Rightarrow> d | Some w \<Rightarrow> w)"

definition mergeStyle :: "drawingStyle \<Rightarrow> partialStyle option \<Rightarrow> drawingStyle" where
  "mergeStyle base partial =
     (case partial of
        None \<Rightarrow> base
      | Some p \<Rightarrow>
          \<lparr> strokeColor = orElse (strokeColor_opt p) (strokeColor base),
            fillColor = orElse (fillColor_opt p) (fillColor base),
            textColor = orElse (textColor_opt p) (textColor base),
            lineWidth = orElse (lineWidth_opt p) (lineWidth base),
            lineStyle = orElse (lineStyle_opt p) (lineStyle base),
            opacity = orElse (opacity_opt p) (opacity base),
            showLabel = orElse (showLabel_opt p) (showLabel base) \<rparr>)"

definition mergeOptions :: "engineOptions \<Rightarrow> partialOptions \<Rightarrow> engineOptions" where
  "mergeOptions base p =
     \<lparr> initialTool = orElse (initialTool_p p) (initialTool base),
       defaultStyle = mergeStyle (defaultStyle base) (defaultStyle_p p),
       historyLimit = orElse (historyLimit_p p) (historyLimit base),
       hitTolerancePxMouse = orElse (hitTolerancePxMouse_p p) (hitTolerancePxMouse base),
       hitTolerancePxTouch = orElse (hitTolerancePxTouch_p p) (hitTolerancePxTouch base),
       snapMode_opt = orElse (snapMode_p p) (snapMode_opt base),
       emitOnAnimationFrame = orElse (emitOnAnimationFrame_p p) (emitOnAnimationFrame base),
       enableHoldToDraw = orElse (enableHoldToDraw_p p) (enableHoldToDraw base),
       holdToDrawMs = orElse (holdToDrawMs_p p) (holdToDrawMs base),
       holdMoveTolerancePx = orElse (holdMoveTolerancePx_p p) (holdMoveTolerancePx base) \<rparr>"

section \<open>Spatial index (spatial-index.ts)\<close>

text \<open>
  The index wraps the external R-tree library \<^verbatim>\<open>rbush\<close>. Its tree is modelled by the
  list of loaded items, and \<^verbatim>\<open>search\<close> by its contract: the items whose box intersects
  the query box. The engine uses the result only as a set of ids.
\<close>

record indexItem =
  minX :: real
  minY :: real
  maxX :: real
  maxY :: real
  id_item :: string

definition index_rebuild ::
  "drawingEntity list \<Rightarrow> engineViewport \<Rightarrow> real \<Rightarrow> indexItem list" where
  "index_rebuild ds vp tolerancePx =
     map (\<lambda>drawing.
            let bbox = expandBBoxByPixels (entityBBox drawing vp) vp tolerancePx in
            \<lparr> minX = minLogical bbox, minY = minPrice bbox,
              maxX = maxLogical bbox, maxY = maxPrice bbox, id_item = id_ent drawing \<rparr>)
         (filter visible ds)"

definition queryPoint :: "indexItem list \<Rightarrow> real \<Rightarrow> real \<Rightarrow> string list" where
  "queryPoint items l p =
     map id_item
       (filter (\<lambda>item. minX item \<le> l \<and> l \<le> maxX item \<and> minY item \<le> p \<and> p \<le> maxY item) items)"

section \<open>Engine state (engine.ts)\<close>

record creatingState =
  tool_c :: toolDefinition
  startedAt :: real
  pointerType_c :: "pointerType option"
  downScreen :: "real \<times> real"
  points_c :: "drawingPoint list"
  beforeSnapshot :: "drawingEntity list"
  pendingHold :: bool

record draggingState =
  start_d :: drawingPoint
  beforeSnapshot_d :: "drawingEntity list"
  originPoints :: "(string \<times> drawingPoint list) list"

record marqueeState =
  start_m :: drawingPoint
  current_m :: drawingPoint
  baseSelection :: "string list"

datatype internalInteraction =
    Idle
  | Creating creatingState
  | DraggingSelection draggingState
  | Marquee marqueeState

record internalMetrics =
  frameSamples :: "real list"
  frames :: nat
  droppedFrames :: nat
  lastFrameMs :: real
  p95FrameMs :: real
  lastHitTestMs :: real

datatype engineError = InvalidToolId toolId | UnsupportedSnapshotVersion string

text \<open>
  Everything the closure of \<^verbatim>\<open>createDrawingEngine\<close> owns. The \<^verbatim>\<open>Map\<close> of
  drawings is the list of its values in insertion order (every entry is stored under
  the entity's own id, which is never reassigned afterwards), and the selection
  \<^verbatim>\<open>Set\<close> is the list of its members in insertion order.
  The two collaborators the engine calls out to are part of the state as sequences of
  the answers they give: \<open>clock\<close> for \<^verbatim>\<open>Date.now()\<close> and \<open>idSource\<close> for
  \<^verbatim>\<open>nanoid(10)\<close>, each with the number of calls made so far.
  Subscribers and the animation-frame queue only publish state views and are left out;
  \<open>notify\<close> keeps the revision counter.
\<close>

record engineState =
  activeTool :: toolId
  drawings :: "drawingEntity list"
  selection :: "string list"
  primaryId :: "string option"
  interaction :: internalInteraction
  revision :: nat
  opts :: engineOptions
  toolRegistry :: "toolId \<rightharpoonup> toolDefinition"
  history :: historyStore
  spatialIndex :: "indexItem list"
  lastViewport :: engineViewport
  metrics :: internalMetrics
  clock :: "nat \<Rightarrow> real"
  clockCalls :: nat
  idSource :: "nat \<Rightarrow> string"
  idCalls :: nat

definition now :: "engineState \<Rightarrow> real \<times> engineState" where
  "now s = (clock s (clockCalls s), s \<lparr> clockCalls := Suc (clockCalls s) \<rparr>)"

definition nanoid :: "engineState \<Rightarrow> string \<times> engineState" where
  "nanoid s = (idSource s (idCalls s), s \<lparr> idCalls := Suc (idCalls s) \<rparr>)"

subsection \<open>Map and Set operations\<close>

definition drawings_has :: "drawingEntity list \<Rightarrow> string \<Rightarrow> bool" where
  "drawings_has ds i = (i \<in> set (map id_ent ds))"

definition drawings_get :: "drawingEntity list \<Rightarrow> string \<Rightarrow> drawingEntity option" where
  "drawings_get ds i = find (\<lambda>d. id_ent d = i) ds"

text \<open>\<^verbatim>\<open>Map.set\<close>: an existing key keeps its place, a new key goes to the end.\<close>

fun drawings_set :: "drawingEntity \<Rightarrow> drawingEntity list \<Rightarrow> drawingEntity list" where
  "drawings_set e [] = [e]"
| "drawings_set e (d # ds) = (if id_ent d = id_ent e then e # ds else d # drawings_set e ds)"

definition drawings_delete :: "string \<Rightarrow> drawingEntity list \<Rightarrow> drawingEntity list" where
  "drawings_delete i ds = filter (\<lambda>d. id_ent d \<noteq> i) ds"

text \<open>An assignment to properties of the object stored under an id.\<close>

definition drawings_modify ::
  "string \<Rightarrow> (drawingEntity \<Rightarrow> drawingEntity) \<Rightarrow> drawingEntity list \<Rightarrow> drawingEntity list" where
  "drawings_modify i f ds = map (\<lambda>d. if id_ent d = i then f d else d) ds"

definition set_add :: "string \<Rightarrow> string list \<Rightarrow> string list" where
  "set_add i sel = (if i \<in> set sel then sel else sel @ [i])"

definition set_delete :: "string \<Rightarrow> string list \<Rightarrow> string list" where
  "set_delete i sel = filter (\<lambda>j. j \<noteq> i) sel"

definition newSet :: "string list \<Rightarrow> string list" where
  "newSet xs = fold set_add xs []"

text \<open>\<^verbatim>\<open>xs.at(-1) ?? null\<close>.\<close>

definition lastOrNull :: "'a list \<Rightarrow> 'a option" where
  "lastOrNull xs = (if xs = [] then None else Some (last xs))"

subsection \<open>Module-level helpers\<close>

text \<open>
  The loop of \<^verbatim>\<open>styleChanged\<close> after the length test, position by position. An index
  at which one list has no element reads \<^verbatim>\<open>undefined\<close> and reports a change.
\<close>

fun styleChangedLoop :: "drawingEntity list \<Rightarrow> drawingEntity list \<Rightarrow> bool" where
  "styleChangedLoop [] b = False"
| "styleChangedLoop (aa # a) [] = True"
| "styleChangedLoop (aa # a) (bb # b) =
     (if id_ent aa \<noteq> id_ent bb \<or> updatedAt aa \<noteq> updatedAt bb \<or> zIndex aa \<noteq> zIndex bb
      then True else styleChangedLoop a b)"

definition styleChanged :: "drawingEntity list \<Rightarrow> drawingEntity list \<Rightarrow> bool" where
  "styleChanged a b = (if length a \<noteq> length b then True else styleChangedLoop a b)"

text \<open>
  \<^verbatim>\<open>Array.prototype.sort\<close> is stable, and so is \<open>sort_key\<close>: entities with equal
  zIndex keep their order.
\<close>

definition normalizeZ :: "drawingEntity list \<Rightarrow> drawingEntity list" where
  "normalizeZ ds =
     map (\<lambda>(drawing, index). drawing \<lparr> zIndex := real index \<rparr>)
         (zip (sort_key zIndex ds) [0 ..< length ds])"

definition modifierUndo :: "keyboardInput \<Rightarrow> bool" where
  "modifierUndo input = (orElse (ctrlKey_kb input) False \<or> orElse (metaKey_kb input) False)"

text \<open>\<^verbatim>\<open>String.prototype.toLowerCase\<close> on the ASCII letters, which is all the key tests need.\<close>

definition lowerChar :: "char \<Rightarrow> char" where
  "lowerChar c =
     (let n = (of_char c :: nat) in if 65 \<le> n \<and> n \<le> 90 then char_of (n + 32) else c)"

definition toLowerCase :: "string \<Rightarrow> string" where
  "toLowerCase k = map lowerChar k"

subsection \<open>Helpers inside the closure\<close>

definition sortedDrawings :: "engineState \<Rightarrow> drawingEntity list" where
  "sortedDrawings s = sort_key zIndex (drawings s)"

definition rebuildIndex :: "engineViewport \<Rightarrow> real \<Rightarrow> engineState \<Rightarrow> engineState" where
  "rebuildIndex vp tolerancePx s =
     s \<lparr> spatialIndex := index_rebuild (sortedDrawings s) vp tolerancePx \<rparr>"

definition activeSelectionIds :: "engineState \<Rightarrow> string list" where
  "activeSelectionIds s =
     sort_key (\<lambda>i. case drawings_get (drawings s) i of None \<Rightarrow> 0 | Some d \<Rightarrow> zIndex d)
       (filter (drawings_has (drawings s)) (selection s))"

datatype interactionMode =
  ModeIdle | ModeCreating | ModeDraggingSelection | ModeMarquee | ModeEditingText

definition interactionModeOf :: "engineState \<Rightarrow> interactionMode" where
  "interactionModeOf s =
     (case interaction s of
        Creating _ \<Rightarrow> ModeCreating
      | DraggingSelection _ \<Rightarrow> ModeDraggingSelection
      | Marquee _ \<Rightarrow> ModeMarquee
      | Idle \<Rightarrow> ModeIdle)"

record marqueeSelection =
  start :: drawingPoint
  current :: drawingPoint

record selectionState =
  ids :: "string list"
  primaryId_v :: "string option"
  marquee :: "marqueeSelection option"

record engineMetrics =
  frames_v :: nat
  droppedFrames_v :: nat
  lastFrameMs_v :: real
  p95FrameMs_v :: real
  lastHitTestMs_v :: real

record engineStateView =
  activeTool_v :: toolId
  drawings_v :: "drawingEntity list"
  selection_v :: selectionState
  interactionMode_v :: interactionMode
  history_v :: "nat \<times> nat"
  metrics_v :: engineMetrics
  revision_v :: nat

definition stateView :: "engineState \<Rightarrow> engineStateView" where
  "stateView s =
     \<lparr> activeTool_v = activeTool s,
       drawings_v = map cloneEntity (sortedDrawings s),
       selection_v =
         \<lparr> ids = activeSelectionIds s,
           primaryId_v = primaryId s,
           marquee = (case interaction s of
                        Marquee m \<Rightarrow> Some \<lparr> start = start_m m, current = current_m m \<rparr>
                      | _ \<Rightarrow> None) \<rparr>,
       interactionMode_v = interactionModeOf s,
       history_v = history_depth (history s),
       metrics_v =
         \<lparr> frames_v = frames (metrics s), droppedFrames_v = droppedFrames (metrics s),
           lastFrameMs_v = lastFrameMs (metrics s), p95FrameMs_v = p95FrameMs (metrics s),
           lastHitTestMs_v = lastHitTestMs (metrics s) \<rparr>,
       revision_v = revision s \<rparr>"

text \<open>\<^verbatim>\<open>notify\<close> counts the revision; the emission to subscribers is not modelled.\<close>

definition notify :: "engineState \<Rightarrow> engineState" where
  "notify s = s \<lparr> revision := Suc (revision s) \<rparr>"

definition selectionSet :: "string list \<Rightarrow> engineState \<Rightarrow> engineState" where
  "selectionSet is s =
     s \<lparr> selection := newSet (filter (drawings_has (drawings s)) is),
         primaryId := lastOrNull is \<rparr>"

definition addSelection :: "string list \<Rightarrow> engineState \<Rightarrow> engineState" where
  "addSelection is s =
     fold (\<lambda>i st. if drawings_has (drawings st) i
                   then st \<lparr> selection := set_add i (selection st), primaryId := Some i \<rparr>
                   else st) is s"

definition removeSelection :: "string \<Rightarrow> engineState \<Rightarrow> engineState" where
  "removeSelection i s =
     (let s1 = s \<lparr> selection := set_delete i (selection s) \<rparr> in
      if primaryId s1 = Some i then s1 \<lparr> primaryId := lastOrNull (activeSelectionIds s1) \<rparr>
      else s1)"

text \<open>\<^verbatim>\<open>Math.round\<close> rounds to the nearest integer, halves upwards.\<close>

definition mathRound :: "real \<Rightarrow> real" where
  "mathRound v = of_int \<lfloor>v + 1 / 2\<rfloor>"

definition toPoint :: "pointerInput \<Rightarrow> engineState \<Rightarrow> drawingPoint" where
  "toPoint input s =
     (let point = \<lparr> logical = logical_inp input, price = price_inp input \<rparr> in
      if snapMode_opt (opts s) = SnapOff then point
      else
        let snapped = \<lparr> logical = mathRound (logical point), price = price point \<rparr> in
        if snapMode_opt (opts s) = SnapStrong then
          let step = max (pricePerPixel (viewport input) * 5) (1 / 10 ^ 4) in
          snapped \<lparr> price := mathRound (price snapped / step) * step \<rparr>
        else snapped)"

definition hitTolerance :: "pointerInput \<Rightarrow> engineState \<Rightarrow> real" where
  "hitTolerance input s =
     (if pointerType_inp input = Some Touch then hitTolerancePxTouch (opts s)
      else hitTolerancePxMouse (opts s))"

definition pushHistory ::
  "string \<Rightarrow> drawingEntity list \<Rightarrow> drawingEntity list \<Rightarrow> engineState \<Rightarrow> engineState" where
  "pushHistory lbl bef aft s =
     (if \<not> styleChanged bef aft then s
      else
        let (t, s1) = now s in
        s1 \<lparr> history := history_push \<lparr> label = lbl, before = bef, after = aft, at_time = t \<rparr>
                                     (history s1) \<rparr>)"

text \<open>The condition \<^verbatim>\<open>state.primaryId && ...\<close>: null and the empty string are falsy.\<close>

definition truthyId :: "string option \<Rightarrow> bool" where
  "truthyId i = (case i of None \<Rightarrow> False | Some v \<Rightarrow> v \<noteq> [])"

definition applyDrawings :: "drawingEntity list \<Rightarrow> engineState \<Rightarrow> engineState" where
  "applyDrawings entities s =
     (let normalized = normalizeZ (cloneEntities entities);
          s1 = s \<lparr> drawings := fold drawings_set normalized [] \<rparr>;
          s2 = s1 \<lparr> selection := filter (drawings_has (drawings s1)) (selection s1) \<rparr>;
          s3 = (if truthyId (primaryId s2) \<and> \<not> drawings_has (drawings s2) (the (primaryId s2))
                then s2 \<lparr> primaryId := lastOrNull (activeSelectionIds s2) \<rparr> else s2)
      in rebuildIndex (lastViewport s3) (hitTolerancePxMouse (opts s3)) s3)"

definition highestZ :: "engineState \<Rightarrow> real" where
  "highestZ s = fold (\<lambda>drawing m. max m (zIndex drawing)) (drawings s) (- 1)"

definition newEntity ::
  "toolDefinition \<Rightarrow> drawingPoint list \<Rightarrow> engineState \<Rightarrow> drawingEntity \<times> engineState" where
  "newEntity tdef pts s =
     (let (newId, s1) = nanoid s;
          (created, s2) = now s1;
          (updated, s3) = now s2
      in (\<lparr> id_ent = newId, tool = id_tool tdef, points = pts,
            style = mergeStyle (defaultStyle (opts s)) (defaultStyle_tool tdef),
            text_ent = (if id_tool tdef = ''text'' then Some ''Text'' else None),
            visible = True, locked = False, groupId = None,
            zIndex = highestZ s + 1, metadata = None,
            createdAt = created, updatedAt = updated \<rparr>, s3))"

text \<open>
  One pass of \<^verbatim>\<open>topMostHit\<close> over the drawings, top-most first: the first entity
  that is not skipped and is hit ends the search.
\<close>

fun firstHit ::
  "drawingEntity list \<Rightarrow> (drawingEntity \<Rightarrow> bool) \<Rightarrow> drawingPoint \<Rightarrow> engineViewport \<Rightarrow> real
     \<Rightarrow> (string \<times> hitTestResult) option" where
  "firstHit [] skip point vp tolerancePx = None"
| "firstHit (drawing # rest) skip point vp tolerancePx =
     (if skip drawing then firstHit rest skip point vp tolerancePx
      else case hitTestEntity drawing point vp tolerancePx of
             Some hit \<Rightarrow> Some (id_ent drawing, hit)
           | None \<Rightarrow> firstHit rest skip point vp tolerancePx)"

definition topMostHit ::
  "drawingPoint \<Rightarrow> engineViewport \<Rightarrow> real \<Rightarrow> engineState
     \<Rightarrow> (string \<times> hitTestResult) option \<times> engineState" where
  "topMostHit point vp tolerancePx s =
     (let (began, s1) = now s;
          candidateIds = queryPoint (spatialIndex s1) (logical point) (price point);
          ds = rev (sortedDrawings s1);
          found =
            (case firstHit ds (\<lambda>d. \<not> visible d \<or> (candidateIds \<noteq> [] \<and> id_ent d \<notin> set candidateIds))
                    point vp tolerancePx of
               Some h \<Rightarrow> Some h
             | None \<Rightarrow> firstHit ds (\<lambda>d. False) point vp tolerancePx);
          (ended, s2) = now s1
      in (found, s2 \<lparr> metrics := (metrics s2) \<lparr> lastHitTestMs := ended - began \<rparr> \<rparr>))"

definition startCreating :: "pointerInput \<Rightarrow> toolDefinition \<Rightarrow> engineState \<Rightarrow> engineState" where
  "startCreating input tdef s =
     (let bef = cloneEntities (sortedDrawings s);
          point = toPoint input s;
          (t, s1) = now s
      in s1 \<lparr> interaction := Creating
               \<lparr> tool_c = tdef, startedAt = t, pointerType_c = pointerType_inp input,
                 downScreen = (x_inp input, y_inp input), points_c = [point],
                 beforeSnapshot = bef,
                 pendingHold = (enableHoldToDraw (opts s) \<and> pointerType_inp input = Some Touch
                                \<and> id_tool tdef \<noteq> ''cursor'' \<and> \<not> truthy (continuous tdef)) \<rparr> \<rparr>)"

definition startDragSelection :: "pointerInput \<Rightarrow> engineState \<Rightarrow> engineState" where
  "startDragSelection input s =
     (let is = activeSelectionIds s in
      if is = [] then s
      else
        s \<lparr> interaction := DraggingSelection
              \<lparr> start_d = toPoint input s,
                beforeSnapshot_d = cloneEntities (sortedDrawings s),
                originPoints =
                  concat (map (\<lambda>i. case drawings_get (drawings s) i of
                                      None \<Rightarrow> []
                                    | Some drawing \<Rightarrow>
                                        if locked drawing then [] else [(i, points drawing)]) is) \<rparr> \<rparr>)"

definition applyMarqueeSelection ::
  "drawingPoint \<Rightarrow> drawingPoint \<Rightarrow> string list \<Rightarrow> engineState \<Rightarrow> engineState" where
  "applyMarqueeSelection st cur base s =
     (let selectionBounds = bboxFromPoints [st, cur];
          matched =
            map id_ent
              (filter (\<lambda>drawing.
                         rectContainsBBox selectionBounds
                           (expandBBoxByPixels (bboxFromPoints (points drawing)) (lastViewport s)
                              (if tool drawing = ''brush'' then 2 else 1)))
                      (drawings s));
          next = fold set_add matched (newSet base)
      in s \<lparr> selection := next, primaryId := lastOrNull next \<rparr>)"

definition commitNewEntity ::
  "toolDefinition \<Rightarrow> drawingPoint list \<Rightarrow> drawingEntity list \<Rightarrow> engineState \<Rightarrow> engineState" where
  "commitNewEntity tdef pts bef s =
     (if real (length pts) < minPoints tdef then s
      else
        let (entity, s1) = newEntity tdef pts s;
            normalized = (case normalize tdef of None \<Rightarrow> entity | Some hook \<Rightarrow> hook entity);
            s2 = s1 \<lparr> drawings := drawings_set normalized (drawings s1) \<rparr>;
            s3 = selectionSet [id_ent normalized] s2;
            aft = cloneEntities (sortedDrawings s3);
            s4 = pushHistory (''create:'' @ id_tool tdef) bef aft s3;
            s5 = rebuildIndex (lastViewport s4) (hitTolerancePxMouse (opts s4)) s4
        in notify s5)"

definition finishCreating :: "pointerInput \<Rightarrow> engineState \<Rightarrow> engineState" where
  "finishCreating input s =
     (case interaction s of
        Creating c \<Rightarrow>
          let (t, s1) = now s; elapsed = t - startedAt c in
          if pendingHold c \<and> pointerType_c c = Some Touch \<and> elapsed < holdToDrawMs (opts s1)
          then notify (s1 \<lparr> interaction := Idle \<rparr>)
          else
            let point = toPoint input s1; pts = points_c c; tdef = tool_c c in
            if truthy (continuous tdef) then
              (if real (length pts) < minPoints tdef then notify (s1 \<lparr> interaction := Idle \<rparr>)
               else (commitNewEntity tdef pts (beforeSnapshot c) s1) \<lparr> interaction := Idle \<rparr>)
            else if maxPoints tdef = 1 then
              (commitNewEntity tdef [case pts of [] \<Rightarrow> point | p0 # _ \<Rightarrow> p0] (beforeSnapshot c) s1)
                \<lparr> interaction := Idle \<rparr>
            else
              let first = (case pts of [] \<Rightarrow> point | p0 # _ \<Rightarrow> p0);
                  second = (case pts of _ # p1 # _ \<Rightarrow> p1 | _ \<Rightarrow> point)
              in if equalPoints first second (viewport input) 2
                 then notify (s1 \<lparr> interaction := Idle \<rparr>)
                 else (commitNewEntity tdef [first, second] (beforeSnapshot c) s1)
                        \<lparr> interaction := Idle \<rparr>
      | _ \<Rightarrow> s)"

text \<open>The loop of \<^verbatim>\<open>keyboardMoveSelection\<close>: each unlocked selected entity is moved
  and stamped with its own clock reading.\<close>

definition moveStep :: "drawingPoint \<Rightarrow> string \<Rightarrow> engineState \<Rightarrow> engineState" where
  "moveStep delta i s =
     (case drawings_get (drawings s) i of
        None \<Rightarrow> s
      | Some drawing \<Rightarrow>
          if locked drawing then s
          else
            let (t, s1) = now s in
            s1 \<lparr> drawings :=
                   drawings_modify i
                     (\<lambda>d. d \<lparr> points := map (\<lambda>point. translatePoint point delta) (points d),
                              updatedAt := t \<rparr>)
                     (drawings s1) \<rparr>)"

definition keyboardMoveSelection :: "real \<Rightarrow> real \<Rightarrow> engineState \<Rightarrow> engineState" where
  "keyboardMoveSelection dxPx dyPx s =
     (let selected = activeSelectionIds s in
      if selected = [] then s
      else
        let bef = cloneEntities (sortedDrawings s);
            delta = \<lparr> logical = dxPx * logicalPerPixel (lastViewport s),
                      price = dyPx * pricePerPixel (lastViewport s) \<rparr>;
            s1 = fold (moveStep delta) selected s;
            aft = cloneEntities (sortedDrawings s1);
            s2 = pushHistory ''move-selection:keyboard'' bef aft s1;
            s3 = rebuildIndex (lastViewport s2) (hitTolerancePxMouse (opts s2)) s2
        in notify s3)"

subsection \<open>The public operations\<close>

text \<open>
  Each operation takes the state and returns the state the call leaves behind. The two
  operations that can throw also return the exception, if one was thrown.
\<close>

definition setTool :: "toolId \<Rightarrow> engineState \<Rightarrow> engineError option \<times> engineState" where
  "setTool t s =
     (if toolRegistry s t = None then (Some (InvalidToolId t), s)
      else (None, notify (s \<lparr> activeTool := t, interaction := Idle \<rparr>)))"

definition setOptions :: "partialOptions \<Rightarrow> engineState \<Rightarrow> engineState" where
  "setOptions nextOptions s = notify (s \<lparr> opts := mergeOptions (opts s) nextOptions \<rparr>)"

definition registerTool :: "toolDefinition \<Rightarrow> engineState \<Rightarrow> engineState" where
  "registerTool definition s =
     notify (s \<lparr> toolRegistry := (toolRegistry s)(id_tool definition \<mapsto> definition) \<rparr>)"

text \<open>
  The body shared by the two duplication loops (alt-drag in \<^verbatim>\<open>pointerDown\<close> and
  \<^verbatim>\<open>duplicateSelection\<close>): a copy with a new id, translated points, new
  timestamps and the next zIndex is stored, and its id is collected.
\<close>

definition duplicateStep ::
  "drawingPoint \<Rightarrow> string \<Rightarrow> engineState \<times> string list \<Rightarrow> engineState \<times> string list" where
  "duplicateStep delta i acc =
     (let s = fst acc; newIds = snd acc in
      case drawings_get (drawings s) i of
        None \<Rightarrow> (s, newIds)
      | Some drawing \<Rightarrow>
          let (newId, s1) = nanoid s;
              (created, s2) = now s1;
              (updated, s3) = now s2;
              copy = (cloneEntity drawing)
                       \<lparr> id_ent := newId,
                         points := map (\<lambda>p. translatePoint p delta) (points drawing),
                         createdAt := created, updatedAt := updated,
                         zIndex := highestZ s3 + 1 \<rparr>
          in (s3 \<lparr> drawings := drawings_set copy (drawings s3) \<rparr>, newIds @ [newId]))"

definition altDragDuplicate :: "pointerInput \<Rightarrow> engineState \<Rightarrow> engineState" where
  "altDragDuplicate input s =
     (let bef = cloneEntities (sortedDrawings s);
          delta = \<lparr> logical = logicalPerPixel (viewport input) * 14,
                    price = pricePerPixel (viewport input) * (- 14) \<rparr>;
          (s1, duplicateIds) = fold (duplicateStep delta) (activeSelectionIds s) (s, []);
          s2 = selectionSet duplicateIds s1;
          aft = cloneEntities (sortedDrawings s2)
      in pushHistory ''duplicate:alt-drag'' bef aft s2)"

definition pointerDown :: "pointerInput \<Rightarrow> engineState \<Rightarrow> engineState" where
  "pointerDown input s =
     (let s0 = s \<lparr> lastViewport := viewport input \<rparr>;
          tolerance = hitTolerance input s0;
          s1 = rebuildIndex (viewport input) tolerance s0;
          point = toPoint input s1
      in
      if activeTool s1 = ''cursor'' then
        (case topMostHit point (viewport input) tolerance s1 of
           (Some (hitId, hit), s2) \<Rightarrow>
             let s3 = (if truthy (shiftKey input) then
                         (if hitId \<in> set (selection s2) then removeSelection hitId s2
                          else addSelection [hitId] s2)
                       else if hitId \<notin> set (selection s2) then selectionSet [hitId] s2
                       else s2);
                 canDrag = (\<not> truthy (shiftKey input) \<and> button input \<noteq> Some 2
                            \<and> (\<exists>i \<in> set (activeSelectionIds s3).
                                  case drawings_get (drawings s3) i of
                                    None \<Rightarrow> True | Some d \<Rightarrow> \<not> locked d))
             in
             if canDrag then
               let s4 = (if truthy (altKey input) \<and> activeSelectionIds s3 \<noteq> []
                         then altDragDuplicate input s3 else s3)
               in notify (startDragSelection input s4)
             else notify (s3 \<lparr> interaction := Idle \<rparr>)
         | (None, s2) \<Rightarrow>
             let s3 = (if \<not> truthy (shiftKey input) then selectionSet [] s2 else s2) in
             notify (s3 \<lparr> interaction := Marquee
                            \<lparr> start_m = point, current_m = point,
                              baseSelection = (if truthy (shiftKey input) then selection s3 else []) \<rparr> \<rparr>))
      else
        (case toolRegistry s1 (activeTool s1) of
           None \<Rightarrow> s1
         | Some tdef \<Rightarrow> notify (startCreating input tdef s1)))"

text \<open>The loop of a drag frame over the recorded original points.\<close>

definition dragStep ::
  "drawingPoint \<Rightarrow> string \<times> drawingPoint list \<Rightarrow> engineState \<Rightarrow> engineState" where
  "dragStep delta entry s =
     (let i = fst entry; pts = snd entry in
      case drawings_get (drawings s) i of
        None \<Rightarrow> s
      | Some drawing \<Rightarrow>
          if locked drawing then s
          else
            let (t, s1) = now s in
            s1 \<lparr> drawings :=
                   drawings_modify i
                     (\<lambda>d. d \<lparr> points := map (\<lambda>point. translatePoint point delta) pts,
                              updatedAt := t \<rparr>)
                     (drawings s1) \<rparr>)"

text \<open>
  In the creating branch the point buffer always holds at least the point captured by
  \<^verbatim>\<open>pointerDown\<close>, so the assignment \<^verbatim>\<open>points[1] = point\<close> is an update in range.
\<close>

definition pointerMove :: "pointerInput \<Rightarrow> engineState \<Rightarrow> engineState" where
  "pointerMove input s =
     (let s0 = s \<lparr> lastViewport := viewport input \<rparr> in
      case interaction s0 of
        Creating c \<Rightarrow>
          let point = toPoint input s0;
              (c1, s1) =
                (if pendingHold c then
                   let (t, sa) = now s0;
                       elapsed = t - startedAt c;
                       movedPx = hypot (x_inp input - fst (downScreen c))
                                       (y_inp input - snd (downScreen c))
                   in (if elapsed \<ge> holdToDrawMs (opts sa) \<or> movedPx \<ge> holdMoveTolerancePx (opts sa)
                       then c \<lparr> pendingHold := False \<rparr> else c, sa)
                 else (c, s0))
          in
          if pendingHold c1 then s1 \<lparr> interaction := Creating c1 \<rparr>
          else
            let pts = points_c c1;
                pts' =
                  (if truthy (continuous (tool_c c1)) then
                     (case lastOrNull pts of
                        None \<Rightarrow> pts @ [point]
                      | Some lastPoint \<Rightarrow>
                          if \<not> equalPoints lastPoint point (viewport input) 1 then pts @ [point]
                          else pts)
                   else if maxPoints (tool_c c1) > 1 then
                     (if length pts = 1 then pts @ [point] else pts[1 := point])
                   else pts)
            in notify (s1 \<lparr> interaction := Creating (c1 \<lparr> points_c := pts' \<rparr>) \<rparr>)
      | DraggingSelection d \<Rightarrow>
          let delta = \<lparr> logical = logical (toPoint input s0) - logical (start_d d),
                        price = price (toPoint input s0) - price (start_d d) \<rparr>;
              s1 = fold (dragStep delta) (originPoints d) s0;
              s2 = rebuildIndex (viewport input) (hitTolerance input s1) s1
          in notify s2
      | Marquee m \<Rightarrow>
          let cur = toPoint input s0;
              s1 = s0 \<lparr> interaction := Marquee (m \<lparr> current_m := cur \<rparr>) \<rparr>;
              s2 = applyMarqueeSelection (start_m m) cur (baseSelection m) s1
          in notify s2
      | Idle \<Rightarrow> s0)"

definition pointerUp :: "pointerInput \<Rightarrow> engineState \<Rightarrow> engineState" where
  "pointerUp input s =
     (let s0 = s \<lparr> lastViewport := viewport input \<rparr> in
      case interaction s0 of
        Creating c \<Rightarrow> finishCreating input s0
      | DraggingSelection d \<Rightarrow>
          let aft = cloneEntities (sortedDrawings s0);
              s1 = pushHistory ''move-selection:pointer'' (beforeSnapshot_d d) aft s0;
              s2 = s1 \<lparr> interaction := Idle \<rparr>;
              s3 = rebuildIndex (viewport input) (hitTolerance input s2) s2
          in notify s3
      | Marquee m \<Rightarrow> notify (s0 \<lparr> interaction := Idle \<rparr>)
      | Idle \<Rightarrow> s0)"

definition undo :: "engineState \<Rightarrow> engineState" where
  "undo s =
     (case history_undo (history s) of
        (None, h) \<Rightarrow> s \<lparr> history := h \<rparr>
      | (Some frame, h) \<Rightarrow> notify (applyDrawings (before frame) (s \<lparr> history := h \<rparr>)))"

definition redo :: "engineState \<Rightarrow> engineState" where
  "redo s =
     (case history_redo (history s) of
        (None, h) \<Rightarrow> s \<lparr> history := h \<rparr>
      | (Some frame, h) \<Rightarrow> notify (applyDrawings (after frame) (s \<lparr> history := h \<rparr>)))"

definition deleteSelection :: "engineState \<Rightarrow> engineState" where
  "deleteSelection s =
     (let is = activeSelectionIds s in
      if is = [] then s
      else
        let bef = cloneEntities (sortedDrawings s);
            s1 = s \<lparr> drawings := fold drawings_delete is (drawings s) \<rparr>;
            s2 = (selectionSet [] s1) \<lparr> interaction := Idle \<rparr>;
            aft = cloneEntities (sortedDrawings s2);
            s3 = pushHistory ''delete-selection'' bef aft s2;
            s4 = rebuildIndex (lastViewport s3) (hitTolerancePxMouse (opts s3)) s3
        in notify s4)"

definition selectAll :: "engineState \<Rightarrow> engineState" where
  "selectAll s = notify (selectionSet (map id_ent (sortedDrawings s)) s)"

definition clearSelection :: "engineState \<Rightarrow> engineState" where
  "clearSelection s = notify (selectionSet [] s)"

text \<open>The loops of \<^verbatim>\<open>setVisibility\<close> and \<^verbatim>\<open>setLocked\<close>: ids that are not
  in the map are passed over.\<close>

definition flagStep ::
  "(real \<Rightarrow> drawingEntity \<Rightarrow> drawingEntity) \<Rightarrow> string \<Rightarrow> engineState \<Rightarrow> engineState" where
  "flagStep f i s =
     (case drawings_get (drawings s) i of
        None \<Rightarrow> s
      | Some drawing \<Rightarrow>
          let (t, s1) = now s in
          s1 \<lparr> drawings := drawings_modify i (f t) (drawings s1) \<rparr>)"

definition setVisibility :: "string list \<Rightarrow> bool \<Rightarrow> engineState \<Rightarrow> engineState" where
  "setVisibility is v s =
     (if is = [] then s
      else
        let bef = cloneEntities (sortedDrawings s);
            s1 = fold (flagStep (\<lambda>t d. d \<lparr> visible := v, updatedAt := t \<rparr>)) is s;
            aft = cloneEntities (sortedDrawings s1);
            s2 = pushHistory ''visibility'' bef aft s1;
            s3 = rebuildIndex (lastViewport s2) (hitTolerancePxMouse (opts s2)) s2
        in notify s3)"

definition setLocked :: "string list \<Rightarrow> bool \<Rightarrow> engineState \<Rightarrow> engineState" where
  "setLocked is l s =
     (if is = [] then s
      else
        let bef = cloneEntities (sortedDrawings s);
            s1 = fold (flagStep (\<lambda>t d. d \<lparr> locked := l, updatedAt := t \<rparr>)) is s;
            aft = cloneEntities (sortedDrawings s1);
            s2 = pushHistory ''lock'' bef aft s1
        in notify s2)"

text \<open>
  The loop of \<^verbatim>\<open>bringToFront\<close> carries the running \<^verbatim>\<open>z\<close>, which is incremented
  before it is assigned; the loop of \<^verbatim>\<open>sendToBack\<close> assigns it first.
\<close>

definition frontStep :: "string \<Rightarrow> real \<times> engineState \<Rightarrow> real \<times> engineState" where
  "frontStep i acc =
     (let z = fst acc; s = snd acc in
      case drawings_get (drawings s) i of
        None \<Rightarrow> (z, s)
      | Some drawing \<Rightarrow>
          let (t, s1) = now s in
          (z + 1,
           s1 \<lparr> drawings :=
                  drawings_modify i (\<lambda>d. d \<lparr> zIndex := z + 1, updatedAt := t \<rparr>) (drawings s1) \<rparr>))"

definition backStep :: "string \<Rightarrow> real \<times> engineState \<Rightarrow> real \<times> engineState" where
  "backStep i acc =
     (let z = fst acc; s = snd acc in
      case drawings_get (drawings s) i of
        None \<Rightarrow> (z, s)
      | Some drawing \<Rightarrow>
          let (t, s1) = now s in
          (z + 1,
           s1 \<lparr> drawings :=
                  drawings_modify i (\<lambda>d. d \<lparr> zIndex := z, updatedAt := t \<rparr>) (drawings s1) \<rparr>))"

definition bringToFront :: "string list \<Rightarrow> engineState \<Rightarrow> engineState" where
  "bringToFront is s =
     (if is = [] then s
      else
        let bef = cloneEntities (sortedDrawings s);
            s1 = snd (fold frontStep is (highestZ s, s));
            normalized = normalizeZ (sortedDrawings s1);
            s2 = applyDrawings normalized s1;
            aft = cloneEntities (sortedDrawings s2);
            s3 = pushHistory ''bring-to-front'' bef aft s2
        in notify s3)"

definition sendToBack :: "string list \<Rightarrow> engineState \<Rightarrow> engineState" where
  "sendToBack is s =
     (if is = [] then s
      else
        let bef = cloneEntities (sortedDrawings s);
            s1 = snd (fold backStep is (- real (length is), s));
            normalized = normalizeZ (sortedDrawings s1);
            s2 = applyDrawings normalized s1;
            aft = cloneEntities (sortedDrawings s2);
            s3 = pushHistory ''send-to-back'' bef aft s2
        in notify s3)"

definition duplicateSelection :: "engineState \<Rightarrow> engineState" where
  "duplicateSelection s =
     (let is = activeSelectionIds s in
      if is = [] then s
      else
        let bef = cloneEntities (sortedDrawings s);
            delta = \<lparr> logical = logicalPerPixel (lastViewport s) * 18,
                      price = pricePerPixel (lastViewport s) * (- 18) \<rparr>;
            (s1, nextIds) = fold (duplicateStep delta) is (s, []);
            s2 = selectionSet nextIds s1;
            aft = cloneEntities (sortedDrawings s2);
            s3 = pushHistory ''duplicate-selection'' bef aft s2;
            s4 = rebuildIndex (lastViewport s3) (hitTolerancePxMouse (opts s3)) s3
        in notify s4)"

definition exportSnapshot :: "engineState \<Rightarrow> drawingSnapshot" where
  "exportSnapshot s =
     \<lparr> version = ''1'',
       drawings_snap = cloneEntities (sortedDrawings s),
       groups = [],
       prefs = \<lparr> activeTool_pref = activeTool s, snapMode_pref = snapMode_opt (opts s) \<rparr> \<rparr>"

definition importSnapshot :: "drawingSnapshot \<Rightarrow> engineState \<Rightarrow> engineError option \<times> engineState" where
  "importSnapshot snapshot s =
     (if version snapshot \<noteq> ''1'' then (Some (UnsupportedSnapshotVersion (version snapshot)), s)
      else
        let s1 = applyDrawings (drawings_snap snapshot) s;
            s2 = s1 \<lparr> activeTool := activeTool_pref (prefs snapshot),
                      opts := (opts s1) \<lparr> snapMode_opt := snapMode_pref (prefs snapshot) \<rparr> \<rparr>;
            s3 = (selectionSet [] s2) \<lparr> interaction := Idle \<rparr>;
            s4 = s3 \<lparr> history := history_clear (history s3) \<rparr>
        in (None, notify s4))"

definition getState :: "engineState \<Rightarrow> engineStateView" where
  "getState s = stateView s"

definition keyDown :: "keyboardInput \<Rightarrow> engineState \<Rightarrow> engineState" where
  "keyDown input s =
     (let isUndo = (modifierUndo input \<and> toLowerCase (key input) = ''z'');
          isRedo = (modifierUndo input
                    \<and> ((truthy (shiftKey_kb input) \<and> toLowerCase (key input) = ''z'')
                       \<or> toLowerCase (key input) = ''y''))
      in
      if isUndo then undo s
      else if isRedo then redo s
      else if key input = ''Escape'' then notify (s \<lparr> interaction := Idle \<rparr>)
      else if key input = ''Delete'' \<or> key input = ''Backspace'' then deleteSelection s
      else if (truthy (ctrlKey_kb input) \<or> truthy (metaKey_kb input))
              \<and> toLowerCase (key input) = ''a'' then selectAll s
      else if key input = ''ArrowLeft'' then keyboardMoveSelection (- 1) 0 s
      else if key input = ''ArrowRight'' then keyboardMoveSelection 1 0 s
      else if key input = ''ArrowUp'' then keyboardMoveSelection 0 (- 1) s
      else if key input = ''ArrowDown'' then keyboardMoveSelection 0 1 s
      else if (truthy (ctrlKey_kb input) \<or> truthy (metaKey_kb input))
              \<and> toLowerCase (key input) = ''d'' then duplicateSelection s
      else s)"

definition keyUp :: "keyboardInput \<Rightarrow> engineState \<Rightarrow> engineState" where
  "keyUp input s = s"

definition reportFrame :: "real \<Rightarrow> engineState \<Rightarrow> engineState" where
  "reportFrame frameMs s =
     (let m = metrics s;
          pushed = frameSamples m @ [frameMs];
          samples = (if length pushed > 240 then tl pushed else pushed);
          sorted = sort samples;
          idx = nat \<lfloor>real (length sorted) * (95 / 100)\<rfloor>;
          j = idx - 1
      in notify (s \<lparr> metrics :=
                       m \<lparr> frames := Suc (frames m),
                           lastFrameMs := frameMs,
                           droppedFrames := (if frameMs > 167 / 10 then Suc (droppedFrames m)
                                             else droppedFrames m),
                           frameSamples := samples,
                           p95FrameMs := (if j < length sorted then sorted ! j else frameMs) \<rparr> \<rparr>))"

text \<open>
  The constructor. The registry starts with the built-in tools; an initial tool that is
  not registered is replaced by the cursor. The clock and the id generator of the
  environment are arguments.
\<close>

definition builtinRegistry :: "toolId \<rightharpoonup> toolDefinition" where
  "builtinRegistry = fold (\<lambda>t m. m(id_tool t \<mapsto> t)) BUILTIN_TOOLS Map.empty"

definition createDrawingEngine ::
  "partialOptions \<Rightarrow> (nat \<Rightarrow> real) \<Rightarrow> (nat \<Rightarrow> string) \<Rightarrow> engineState" where
  "createDrawingEngine options clk gen =
     (let merged = mergeOptions DEFAULT_OPTIONS options;
          s = \<lparr> activeTool = initialTool merged,
                drawings = [],
                selection = [],
                primaryId = None,
                interaction = Idle,
                revision = 0,
                opts = merged,
                toolRegistry = builtinRegistry,
                history = \<lparr> undoStack = [], redoStack = [], limit = historyLimit merged \<rparr>,
                spatialIndex = [],
                lastViewport = \<lparr> logicalPerPixel = 1, pricePerPixel = 1 \<rparr>,
                metrics = \<lparr> frameSamples = [], frames = 0, droppedFrames = 0, lastFrameMs = 0,
                            p95FrameMs = 0, lastHitTestMs = 0 \<rparr>,
                clock = clk, clockCalls = 0, idSource = gen, idCalls = 0 \<rparr>;
          s1 = (if builtinRegistry (initialTool merged) = None then s \<lparr> activeTool := ''cursor'' \<rparr> else s)
      in rebuildIndex (lastViewport s1) (hitTolerancePxMouse (opts s1)) s1)"

section \<open>The specification's wording of two checks\<close>

text \<open>
  The cheap structural check as the specification words it: the two lists have the same
  length and, position by position, the same id, the same \<^verbatim>\<open>updatedAt\<close> and the same
  \<^verbatim>\<open>zIndex\<close>. It is compared with \<open>styleChanged\<close>, which is taken from the source.
\<close>

definition cheapEqual :: "drawingEntity list \<Rightarrow> drawingEntity list \<Rightarrow> bool" where
  "cheapEqual a b =
     list_all2 (\<lambda>aa bb. id_ent aa = id_ent bb \<and> updatedAt aa = updatedAt bb \<and> zIndex aa = zIndex bb)
       a b"

section \<open>Sample inputs\<close>

text \<open>
  The pointer input of the repository's tests (\<^verbatim>\<open>input(logical, price)\<close>): a mouse
  event with the left button, pixel position equal to the model position and a viewport
  of one unit per pixel on both axes.
\<close>

definition mouseAt :: "real \<Rightarrow> real \<Rightarrow> pointerInput" where
  "mouseAt l p =
     \<lparr> x_inp = l, y_inp = p, logical_inp = l, price_inp = p,
       viewport = \<lparr> logicalPerPixel = 1, pricePerPixel = 1 \<rparr>, pointerId = None,
       pointerType_inp = Some Mouse, button = Some 0, shiftKey = None, altKey = None,
       ctrlKey = None, metaKey = None \<rparr>"

definition pressKey :: "string \<Rightarrow> keyboardInput" where
  "pressKey k =
     \<lparr> key = k, shiftKey_kb = None, altKey_kb = None, ctrlKey_kb = None, metaKey_kb = None \<rparr>"

text \<open>The options of the tests, \<^verbatim>\<open>{ emitOnAnimationFrame: false }\<close>.\<close>

definition testOptions :: partialOptions where
  "testOptions =
     \<lparr> initialTool_p = None, defaultStyle_p = None, historyLimit_p = None,
       hitTolerancePxMouse_p = None, hitTolerancePxTouch_p = None, snapMode_p = None,
       emitOnAnimationFrame_p = Some False, enableHoldToDraw_p = None, holdToDrawMs_p = None,
       holdMoveTolerancePx_p = None \<rparr>"

text \<open>
  A new engine whose clock stands at 1000 ms for the whole session (all calls fall into
  one millisecond) and whose id generator hands out \<open>a\<close>, then \<open>b\<close>.
\<close>

definition freshEngine :: engineState where
  "freshEngine = createDrawingEngine testOptions (\<lambda>n. 1000) (\<lambda>n. if n = 0 then ''a'' else ''b'')"

text \<open>The trend line of the geometry test, from (10, 100) to (20, 90).\<close>

definition testLine :: drawingEntity where
  "testLine =
     \<lparr> id_ent = ''a'', tool = ''trend_line'',
       points = [\<lparr> logical = 10, price = 100 \<rparr>, \<lparr> logical = 20, price = 90 \<rparr>],
       style = DEFAULT_STYLE, text_ent = None, visible = True, locked = False, groupId = None,
       zIndex = 0, metadata = None, createdAt = 0, updatedAt = 0 \<rparr>"

definition unitViewport :: engineViewport where
  "unitViewport = \<lparr> logicalPerPixel = 1, pricePerPixel = 1 \<rparr>"

text \<open>
  The marquee selection as the claim words it: the base selection together with the
  entities whose per-tool bounding box (\<open>entityBBox\<close>), padded by one pixel, or two
  for a freehand stroke, lies inside the marquee rectangle.
\<close>

definition marqueeClaimed ::
  "marqueeState \<Rightarrow> drawingPoint \<Rightarrow> engineViewport \<Rightarrow> drawingEntity list \<Rightarrow> string set" where
  "marqueeClaimed m cur vp ds =
     set (baseSelection m)
     \<union> set (map id_ent
              (filter (\<lambda>d. rectContainsBBox (bboxFromPoints [start_m m, cur])
                             (expandBBoxByPixels (entityBBox d vp) vp
                                (if tool d = ''brush'' then 2 else 1)))
                      ds))"

section \<open>Auxiliary notions for the statements\<close>

text \<open>Two entity lists that agree position by position in everything but the zIndex.\<close>

definition sameButZ :: "drawingEntity list \<Rightarrow> drawingEntity list \<Rightarrow> bool" where
  "sameButZ xs ys = (map (\<lambda>d. d \<lparr> zIndex := 0 \<rparr>) xs = map (\<lambda>d. d \<lparr> zIndex := 0 \<rparr>) ys)"

section \<open>Sample sessions\<close>

text \<open>
  The opening of the repository's engine tests: choose the horizontal-line tool and
  click at (10, 100); the engine then holds one entity, \<open>a\<close>. A second click at
  (30, 100) adds the entity \<open>b\<close>.
\<close>

definition oneLine :: engineState where
  "oneLine =
     pointerUp (mouseAt 10 100)
       (pointerDown (mouseAt 10 100) (snd (setTool ''horizontal_line'' freshEngine)))"

definition twoLines :: engineState where
  "twoLines = pointerUp (mouseAt 30 100) (pointerDown (mouseAt 30 100) oneLine)"

text \<open>The single line nudged one pixel to the right with the arrow key.\<close>

definition nudgedLine :: engineState where
  "nudgedLine = keyDown (pressKey ''ArrowRight'') oneLine"

text \<open>
  With the cursor tool and the shift key held, a press on empty space at (50, 50)
  starts a marquee whose base is the current selection \<open>a\<close>; then the creation of
  \<open>a\<close> is undone while the marquee is still open, and the pointer moves on.
\<close>

definition shiftAt :: "real \<Rightarrow> real \<Rightarrow> pointerInput" where
  "shiftAt l p = (mouseAt l p) \<lparr> shiftKey := Some True \<rparr>"

definition staleMarquee :: engineState where
  "staleMarquee =
     pointerMove (mouseAt 60 60)
       (undo (pointerDown (shiftAt 50 50) (snd (setTool ''cursor'' oneLine))))"

text \<open>
  A marquee over the anchor of the horizontal line: pressed at (8, 110) on empty space
  with the cursor tool, to be dragged to (12, 90).
\<close>

definition marqueeStart :: engineState where
  "marqueeStart = pointerDown (mouseAt 8 110) (snd (setTool ''cursor'' oneLine))"

text \<open>
  A snapshot whose only entity has the empty string as its id, imported into a new
  engine; the entity is deleted, the deletion is undone, the entity is clicked, and the
  deletion is redone.
\<close>

definition emptyIdSnapshot :: drawingSnapshot where
  "emptyIdSnapshot =
     \<lparr> version = ''1'',
       drawings_snap = [testLine \<lparr> id_ent := [], tool := ''horizontal_line'',
                                  points := [\<lparr> logical = 10, price = 100 \<rparr>] \<rparr>],
       groups = [],
       prefs = \<lparr> activeTool_pref = ''cursor'', snapMode_pref = SnapWeak \<rparr> \<rparr>"

definition emptyIdSession :: engineState where
  "emptyIdSession =
     redo (pointerUp (mouseAt 10 100) (pointerDown (mouseAt 10 100)
       (undo (deleteSelection (selectAll (snd (importSnapshot emptyIdSnapshot freshEngine)))))))"

text \<open>
  A short, quick touch stroke with the trend-line tool: pressed at (10, 100), moved four
  pixels to (14, 100) and lifted there, all within the hold time.
\<close>

definition touchAt :: "real \<Rightarrow> real \<Rightarrow> pointerInput" where
  "touchAt l p = (mouseAt l p) \<lparr> pointerType_inp := Some Touch \<rparr>"

definition touchDown :: engineState where
  "touchDown = pointerDown (touchAt 10 100) (snd (setTool ''trend_line'' freshEngine))"

definition touchMoved :: engineState where
  "touchMoved = pointerMove (touchAt 14 100) touchDown"

text \<open>
  A registered two-point tool whose \<open>normalize\<close> hook gives the entity the id, the update
  time and the zIndex of the line \<open>a\<close> that already exists; with it a stroke is drawn by
  mouse from (20, 100) to (40, 100).
\<close>

definition stampTool :: toolDefinition where
  "stampTool =
     (mkTool ''stamp'' 2 2 None)
       \<lparr> normalize := Some (\<lambda>e. e \<lparr> id_ent := ''a'', updatedAt := 1000, zIndex := 0 \<rparr>) \<rparr>"

definition stampDown :: engineState where
  "stampDown =
     pointerDown (mouseAt 20 100) (snd (setTool ''stamp'' (registerTool stampTool oneLine)))"

text \<open>A short line whose two control points are two pixels apart.\<close>

definition shortLine :: drawingEntity where
  "shortLine = testLine \<lparr> points := [\<lparr> logical = 10, price = 100 \<rparr>, \<lparr> logical = 12, price = 100 \<rparr>] \<rparr>"

text \<open>The trend line of the engine test, dragged with the mouse from (10, 100) to (20, 90).\<close>

definition lineClick :: engineState where
  "lineClick = pointerDown (mouseAt 10 100) (snd (setTool ''trend_line'' freshEngine))"

definition lineDrag :: engineState where
  "lineDrag = pointerMove (mouseAt 20 90) lineClick"

text \<open>
  An entity list that, put in paint order, is the live entity list of the engine up to
  zIndex; and a state whose newest history frame holds such a list as its \<open>after\<close> list.
\<close>

definition agreesWithLive :: "drawingEntity list \<Rightarrow> engineState \<Rightarrow> bool" where
  "agreesWithLive es s = sameButZ (sort_key zIndex es) (sortedDrawings s)"

definition recorded :: "engineState \<Rightarrow> bool" where
  "recorded s =
     (undoStack (history s) \<noteq> [] \<and> agreesWithLive (after (last (undoStack (history s)))) s)"

section \<open>The states an engine can reach\<close>

text \<open>
  The public operations as data, so that a session is a list of operations. The two
  operations that can throw leave the state as it is when they do, and the session goes
  on; the accessors \<^verbatim>\<open>getState\<close>, \<^verbatim>\<open>exportSnapshot\<close> and \<^verbatim>\<open>subscribe\<close> do not
  change the state and are not listed.
\<close>

datatype operation =
    OpSetTool toolId
  | OpSetOptions partialOptions
  | OpRegisterTool toolDefinition
  | OpPointerDown pointerInput
  | OpPointerMove pointerInput
  | OpPointerUp pointerInput
  | OpKeyDown keyboardInput
  | OpKeyUp keyboardInput
  | OpUndo
  | OpRedo
  | OpDeleteSelection
  | OpSelectAll
  | OpClearSelection
  | OpSetVisibility "string list" bool
  | OpSetLocked "string list" bool
  | OpBringToFront "string list"
  | OpSendToBack "string list"
  | OpDuplicateSelection
  | OpImportSnapshot drawingSnapshot
  | OpReportFrame real

fun perform :: "operation \<Rightarrow> engineState \<Rightarrow> engineState" where
  "perform (OpSetTool t) s = snd (setTool t s)"
| "perform (OpSetOptions p) s = setOptions p s"
| "perform (OpRegisterTool d) s = registerTool d s"
| "perform (OpPointerDown input) s = pointerDown input s"
| "perform (OpPointerMove input) s = pointerMove input s"
| "perform (OpPointerUp input) s = pointerUp input s"
| "perform (OpKeyDown input) s = keyDown input s"
| "perform (OpKeyUp input) s = keyUp input s"
| "perform OpUndo s = undo s"
| "perform OpRedo s = redo s"
| "perform OpDeleteSelection s = deleteSelection s"
| "perform OpSelectAll s = selectAll s"
| "perform OpClearSelection s = clearSelection s"
| "perform (OpSetVisibility is v) s = setVisibility is v s"
| "perform (OpSetLocked is l) s = setLocked is l s"
| "perform (OpBringToFront is) s = bringToFront is s"
| "perform (OpSendToBack is) s = sendToBack is s"
| "perform OpDuplicateSelection s = duplicateSelection s"
| "perform (OpImportSnapshot snapshot) s = snd (importSnapshot snapshot s)"
| "perform (OpReportFrame frameMs) s = reportFrame frameMs s"

inductive reachable :: "engineState \<Rightarrow> bool" where
  created: "reachable (createDrawingEngine options clk gen)"
| performed: "reachable s \<Longrightarrow> reachable (perform op s)"

text \<open>
  The invariant of claim C8 on the engine's own state, weakened by the one value that
  \<^verbatim>\<open>applyDrawings\<close> does not repair: the primary id is none, or a member of the selection
  set, or the empty string.
\<close>

definition primaryOk :: "engineState \<Rightarrow> bool" where
  "primaryOk s = (primaryId s \<in> {None, Some []} \<union> Some ` set (selection s))"

section \<open>Basic facts\<close>

lemma hypot_nonneg: "0 \<le> hypot dx dy"
  by (simp add: hypot_def)

lemma hypot_le_iff: "hypot dx dy \<le> t \<longleftrightarrow> 0 \<le> t \<and> dx * dx + dy * dy \<le> t * t"
proof (cases "0 \<le> t")
  case True
  then have "t = sqrt (t * t)" by simp
  then have "hypot dx dy \<le> t \<longleftrightarrow> sqrt (dx * dx + dy * dy) \<le> sqrt (t * t)"
    unfolding hypot_def by simp
  also have "\<dots> \<longleftrightarrow> dx * dx + dy * dy \<le> t * t" by (rule real_sqrt_le_iff)
  finally show ?thesis using True by simp
next
  case False
  with hypot_nonneg [of dx dy] show ?thesis by auto
qed

lemma hypot_ge_iff: "t \<le> hypot dx dy \<longleftrightarrow> t \<le> 0 \<or> t * t \<le> dx * dx + dy * dy"
proof (cases "0 \<le> t")
  case True
  then have "t = sqrt (t * t)" by simp
  then have "t \<le> hypot dx dy \<longleftrightarrow> sqrt (t * t) \<le> sqrt (dx * dx + dy * dy)"
    unfolding hypot_def by simp
  also have "\<dots> \<longleftrightarrow> t * t \<le> dx * dx + dy * dy" by (rule real_sqrt_le_iff)
  finally have main: "t \<le> hypot dx dy \<longleftrightarrow> t * t \<le> dx * dx + dy * dy" .
  show ?thesis
  proof (cases "t = 0")
    case True
    then show ?thesis using hypot_nonneg [of dx dy] by simp
  next
    case False
    with \<open>0 \<le> t\<close> main show ?thesis by simp
  qed
next
  case False
  with hypot_nonneg [of dx dy] show ?thesis by auto
qed

lemma point_eta: "\<lparr> logical = logical p, price = price p \<rparr> = p"
  by (cases p) simp

lemma cloneEntity_ident [simp]: "cloneEntity e = e"
proof -
  have pts: "map (\<lambda>point. \<lparr> logical = logical point, price = price point \<rparr>) (points e) = points e"
    by (simp add: point_eta)
  have md: "(case metadata e of None \<Rightarrow> None | Some m \<Rightarrow> Some m) = metadata e"
    by (cases "metadata e") simp_all
  show ?thesis
    unfolding cloneEntity_def pts md by simp
qed

lemma cloneEntities_ident [simp]: "cloneEntities es = es"
  unfolding cloneEntities_def by (induction es) simp_all

lemma map_cloneEntity_ident [simp]: "map cloneEntity es = es"
  by (induction es) simp_all

lemma mouseAt_sel [simp]:
  "x_inp (mouseAt l p) = l" "y_inp (mouseAt l p) = p"
  "logical_inp (mouseAt l p) = l" "price_inp (mouseAt l p) = p"
  "viewport (mouseAt l p) = \<lparr> logicalPerPixel = 1, pricePerPixel = 1 \<rparr>"
  "pointerType_inp (mouseAt l p) = Some Mouse" "button (mouseAt l p) = Some 0"
  "shiftKey (mouseAt l p) = None" "altKey (mouseAt l p) = None"
  by (simp_all add: mouseAt_def)

lemma fold_registry_None:
  "fold (\<lambda>t m. m(id_tool t \<mapsto> t)) ts m0 x = None \<longleftrightarrow> x \<notin> set (map id_tool ts) \<and> m0 x = None"
  by (induction ts arbitrary: m0) auto

lemma builtinRegistry_None_iff:
  "builtinRegistry t = None \<longleftrightarrow> t \<notin> set (map id_tool BUILTIN_TOOLS)"
  unfolding builtinRegistry_def by (simp add: fold_registry_None)

lemma toolRegistry_created [simp]:
  "toolRegistry (createDrawingEngine options clk gen) = builtinRegistry"
  by (simp add: createDrawingEngine_def Let_def rebuildIndex_def)

section \<open>The cheap structural check and the history push\<close>

lemma styleChangedLoop_iff:
  "length a = length b \<Longrightarrow>
   styleChangedLoop a b =
     (\<not> list_all2 (\<lambda>aa bb. id_ent aa = id_ent bb \<and> updatedAt aa = updatedAt bb \<and> zIndex aa = zIndex bb) a b)"
  by (induction a b rule: list_induct2) auto

lemma styleChanged_iff: "styleChanged a b = (\<not> cheapEqual a b)"
proof (cases "length a = length b")
  case True
  then show ?thesis by (simp add: styleChanged_def cheapEqual_def styleChangedLoop_iff)
next
  case False
  then show ?thesis by (auto simp: styleChanged_def cheapEqual_def dest: list_all2_lengthD)
qed

text \<open>
  Claim C9. \<open>pushHistory\<close> skips the push, and returns the engine as it was, exactly when
  \<open>before\<close> and \<open>after\<close> pass the cheap structural check (same length, and at every
  position the same id, \<^verbatim>\<open>updatedAt\<close> and \<^verbatim>\<open>zIndex\<close>); otherwise it reads the
  clock once and hands the frame to \<^verbatim>\<open>HistoryStore.push\<close>.
\<close>

theorem pushHistory_skipped_iff_cheapEqual:
  "pushHistory lbl bef aft s =
     (if cheapEqual bef aft then s
      else s \<lparr> clockCalls := Suc (clockCalls s),
               history := history_push \<lparr> label = lbl, before = bef, after = aft,
                                         at_time = clock s (clockCalls s) \<rparr> (history s) \<rparr>)"
  by (simp add: pushHistory_def styleChanged_iff now_def)

theorem pushHistory_skipped_iff_cheapEqual_witness:
  "pushHistory ''move'' [testLine] [testLine] freshEngine = freshEngine
   \<and> undoStack (history (pushHistory ''move'' [testLine] [testLine \<lparr> updatedAt := 5 \<rparr>] freshEngine))
       = [\<lparr> label = ''move'', before = [testLine], after = [testLine \<lparr> updatedAt := 5 \<rparr>],
            at_time = 1000 \<rparr>]"
  using pushHistory_skipped_iff_cheapEqual [of "''move''" "[testLine]" "[testLine]" freshEngine]
    pushHistory_skipped_iff_cheapEqual
      [of "''move''" "[testLine]" "[testLine \<lparr> updatedAt := 5 \<rparr>]" freshEngine]
  by (simp add: cheapEqual_def testLine_def history_push_def freshEngine_def
      createDrawingEngine_def Let_def rebuildIndex_def mergeOptions_def orElse_def
      testOptions_def DEFAULT_OPTIONS_def)

section \<open>The two error paths\<close>

text \<open>
  Claim C3. \<^verbatim>\<open>setTool\<close> with an id that is not in the registry throws the
  invalid-tool error, and \<^verbatim>\<open>importSnapshot\<close> with a version tag other than "1" throws
  the unsupported-version error; in both cases the engine is left exactly as it was:
  every component of the state, among them the entity map, the selection, the active
  tool, the interaction, the history and the options, is unchanged.
\<close>

theorem error_paths_leave_state_unchanged:
  "(toolRegistry s t = None \<longrightarrow> setTool t s = (Some (InvalidToolId t), s))
   \<and> (version snapshot \<noteq> ''1'' \<longrightarrow>
        importSnapshot snapshot s = (Some (UnsupportedSnapshotVersion (version snapshot)), s))"
  by (simp add: setTool_def importSnapshot_def)

theorem error_paths_leave_state_unchanged_witness:
  "toolRegistry freshEngine ''lasso'' = None
   \<and> setTool ''lasso'' freshEngine = (Some (InvalidToolId ''lasso''), freshEngine)
   \<and> importSnapshot \<lparr> version = ''2'', drawings_snap = [testLine], groups = [],
                       prefs = \<lparr> activeTool_pref = ''cursor'', snapMode_pref = SnapOff \<rparr> \<rparr>
        freshEngine
       = (Some (UnsupportedSnapshotVersion ''2''), freshEngine)"
proof -
  have reg: "toolRegistry freshEngine ''lasso'' = None"
    by (simp add: freshEngine_def builtinRegistry_None_iff BUILTIN_TOOLS_def mkTool_def)
  show ?thesis
    using reg
      error_paths_leave_state_unchanged [of freshEngine "''lasso''"
        "\<lparr> version = ''2'', drawings_snap = [testLine], groups = [],
           prefs = \<lparr> activeTool_pref = ''cursor'', snapMode_pref = SnapOff \<rparr> \<rparr>"]
    by simp
qed

section \<open>Construction with an unregistered initial tool\<close>

text \<open>
  Claim C10. When the options name an initial tool that is not one of the built-in
  tools (the whole registry at construction time), the constructor still returns an
  engine, and its active tool is the cursor; \<^verbatim>\<open>setTool\<close> with the same id on that
  engine throws the invalid-tool error.
\<close>

theorem unregistered_initialTool_falls_back_to_cursor:
  assumes "initialTool_p options = Some t"
    and "t \<notin> set (map id_tool BUILTIN_TOOLS)"
  shows "activeTool (createDrawingEngine options clk gen) = ''cursor''
         \<and> fst (setTool t (createDrawingEngine options clk gen)) = Some (InvalidToolId t)"
proof -
  have none: "builtinRegistry t = None"
    using assms(2) by (simp add: builtinRegistry_None_iff)
  have "initialTool (mergeOptions DEFAULT_OPTIONS options) = t"
    using assms(1) by (simp add: mergeOptions_def orElse_def)
  with none have "activeTool (createDrawingEngine options clk gen) = ''cursor''"
    by (simp add: createDrawingEngine_def Let_def rebuildIndex_def)
  moreover have "fst (setTool t (createDrawingEngine options clk gen)) = Some (InvalidToolId t)"
    using none by (simp add: setTool_def)
  ultimately show ?thesis by simp
qed

theorem unregistered_initialTool_falls_back_to_cursor_witness:
  "activeTool (createDrawingEngine (testOptions \<lparr> initialTool_p := Some ''lasso'' \<rparr>)
                 (\<lambda>n. 1000) (\<lambda>n. ''a'')) = ''cursor''
   \<and> fst (setTool ''lasso'' (createDrawingEngine (testOptions \<lparr> initialTool_p := Some ''lasso'' \<rparr>)
                 (\<lambda>n. 1000) (\<lambda>n. ''a''))) = Some (InvalidToolId ''lasso'')"
proof -
  have a: "initialTool_p (testOptions \<lparr> initialTool_p := Some ''lasso'' \<rparr>) = Some ''lasso''"
    by simp
  have b: "''lasso'' \<notin> set (map id_tool BUILTIN_TOOLS)"
    by (simp add: BUILTIN_TOOLS_def mkTool_def)
  show ?thesis
    using unregistered_initialTool_falls_back_to_cursor [OF a b] by blast
qed

section \<open>Handles before bodies\<close>

lemma handleLoop_first:
  assumes "i < length pts" and "distPointPx p (pts ! i) vp \<le> tol"
  shows "\<exists>j \<le> i. handleLoop pts k p vp tol = Some (k + j)
           \<and> distPointPx p (pts ! j) vp \<le> tol
           \<and> (\<forall>m < j. \<not> distPointPx p (pts ! m) vp \<le> tol)"
  using assms
proof (induction pts arbitrary: i k)
  case Nil
  then show ?case by simp
next
  case (Cons h rest)
  show ?case
  proof (cases "distPointPx p h vp \<le> tol")
    case True
    then show ?thesis by (intro exI [of _ 0]) simp
  next
    case False
    with Cons.prems obtain i' where i': "i = Suc i'" by (cases i) auto
    with Cons.prems have "i' < length rest" "distPointPx p (rest ! i') vp \<le> tol" by simp_all
    from Cons.IH [OF this, of "Suc k"] obtain j where
      j: "j \<le> i'" "handleLoop rest (Suc k) p vp tol = Some (Suc k + j)"
         "distPointPx p (rest ! j) vp \<le> tol"
         "\<forall>m < j. \<not> distPointPx p (rest ! m) vp \<le> tol"
      by blast
    have "\<forall>m < Suc j. \<not> distPointPx p ((h # rest) ! m) vp \<le> tol"
      using False j(4) by (auto simp: less_Suc_eq_0_disj)
    with j i' False show ?thesis
      by (intro exI [of _ "Suc j"]) simp
  qed
qed

text \<open>
  Claim C5, amended. For a visible entity, whenever the query point is within tolerance
  of one of the control points, the hit test returns a handle hit and not a body hit,
  whatever the viewport and the tolerance. The index it reports is that of the first
  control point, in the order of the point list, that is within tolerance: it is the
  index of the control point in question exactly when no earlier control point is within
  tolerance too.
\<close>

theorem handle_hit_takes_priority:
  assumes "visible e"
    and "i < length (points e)"
    and "distPointPx p (points e ! i) vp \<le> tol"
  shows "\<exists>j \<le> i. hitTestEntity e p vp tol = Some \<lparr> kind = Handle, handleIndex = Some j \<rparr>
           \<and> distPointPx p (points e ! j) vp \<le> tol
           \<and> (\<forall>m < j. \<not> distPointPx p (points e ! m) vp \<le> tol)"
proof -
  from handleLoop_first [OF assms(2,3), of 0] obtain j where
    j: "j \<le> i" "handleLoop (points e) 0 p vp tol = Some j"
       "distPointPx p (points e ! j) vp \<le> tol"
       "\<forall>m < j. \<not> distPointPx p (points e ! m) vp \<le> tol"
    by auto
  from assms(1) j(2) have "hitTestEntity e p vp tol = Some \<lparr> kind = Handle, handleIndex = Some j \<rparr>"
    by (simp add: hitTestEntity_def)
  with j show ?thesis by blast
qed

theorem handle_hit_takes_priority_witness:
  "visible testLine \<and> 0 < length (points testLine)
   \<and> distPointPx \<lparr> logical = 10, price = 100 \<rparr> (points testLine ! 0) unitViewport \<le> 4
   \<and> lineBodyHit testLine \<lparr> logical = 10, price = 100 \<rparr> unitViewport 4
   \<and> hitTestEntity testLine \<lparr> logical = 10, price = 100 \<rparr> unitViewport 4
       = Some \<lparr> kind = Handle, handleIndex = Some 0 \<rparr>"
proof -
  have v: "visible testLine" and l: "0 < length (points testLine)"
    by (simp_all add: testLine_def)
  have d: "distPointPx \<lparr> logical = 10, price = 100 \<rparr> (points testLine ! 0) unitViewport \<le> 4"
    by (simp add: testLine_def distPointPx_def unitViewport_def hypot_le_iff)
  have b: "lineBodyHit testLine \<lparr> logical = 10, price = 100 \<rparr> unitViewport 4"
    by (simp add: testLine_def lineBodyHit_def isLineTool_def segmentDistancePx_def Let_def
        clamp_def distPointPx_def unitViewport_def hypot_le_iff EPS_def)
  from handle_hit_takes_priority [OF v l d] v l d b show ?thesis by auto
qed

text \<open>
  The claim as stated fails where two control points are both within tolerance: the
  query point lies on the second control point of the short line, and the hit carries
  the index of the first, two pixels away.
\<close>

theorem handle_index_counterexample:
  "visible shortLine
   \<and> distPointPx \<lparr> logical = 12, price = 100 \<rparr> (points shortLine ! 1) unitViewport = 0
   \<and> distPointPx \<lparr> logical = 12, price = 100 \<rparr> (points shortLine ! 1) unitViewport \<le> 6
   \<and> hitTestEntity shortLine \<lparr> logical = 12, price = 100 \<rparr> unitViewport 6
       = Some \<lparr> kind = Handle, handleIndex = Some 0 \<rparr>"
  by (simp add: shortLine_def testLine_def hitTestEntity_def distPointPx_def unitViewport_def
      hypot_le_iff hypot_def EPS_def)

section \<open>Normalisation of the z-order\<close>

lemma length_normalizeZ [simp]: "length (normalizeZ ds) = length ds"
  by (simp add: normalizeZ_def)

lemma nth_normalizeZ:
  "i < length ds \<Longrightarrow> normalizeZ ds ! i = (sort_key zIndex ds ! i) \<lparr> zIndex := real i \<rparr>"
  by (simp add: normalizeZ_def)

lemma zIndex_normalizeZ: "map zIndex (normalizeZ ds) = map real [0 ..< length ds]"
  by (rule nth_equalityI) (simp_all add: nth_normalizeZ)

lemma id_ent_normalizeZ: "map id_ent (normalizeZ ds) = map id_ent (sort_key zIndex ds)"
  by (rule nth_equalityI) (simp_all add: nth_normalizeZ)

lemma sameButZ_normalizeZ: "sameButZ (normalizeZ ds) (sort_key zIndex ds)"
  unfolding sameButZ_def by (rule nth_equalityI) (simp_all add: nth_normalizeZ)

lemma sorted_zIndex_normalizeZ: "sorted (map zIndex (normalizeZ ds))"
  unfolding zIndex_normalizeZ by (simp add: sorted_map strict_mono_imp_increasing sorted_wrt_iff_nth_less)

lemma sort_normalizeZ [simp]: "sort_key zIndex (normalizeZ ds) = normalizeZ ds"
  by (rule sort_key_id_if_sorted) (rule sorted_zIndex_normalizeZ)

lemma sort_key_idem: "sort_key f (sort_key f xs) = sort_key f xs"
  by (rule sort_key_id_if_sorted) simp

lemma normalizeZ_sort [simp]: "normalizeZ (sort_key zIndex ds) = normalizeZ ds"
  by (simp add: normalizeZ_def sort_key_idem)

lemma normalizeZ_idem [simp]: "normalizeZ (normalizeZ ds) = normalizeZ ds"
proof (rule nth_equalityI)
  show "length (normalizeZ (normalizeZ ds)) = length (normalizeZ ds)" by simp
next
  fix i assume "i < length (normalizeZ (normalizeZ ds))"
  then have i: "i < length ds" by simp
  then have "normalizeZ (normalizeZ ds) ! i = (normalizeZ ds ! i) \<lparr> zIndex := real i \<rparr>"
    by (simp add: nth_normalizeZ)
  also have "\<dots> = normalizeZ ds ! i"
    using i by (simp add: nth_normalizeZ)
  finally show "normalizeZ (normalizeZ ds) ! i = normalizeZ ds ! i" .
qed

lemma distinct_ids_sort: "distinct (map id_ent (sort_key f ds)) = distinct (map id_ent ds)"
  by (simp add: distinct_map)

lemma distinct_ids_normalizeZ [simp]:
  "distinct (map id_ent (normalizeZ ds)) = distinct (map id_ent ds)"
  by (simp add: id_ent_normalizeZ distinct_ids_sort)

section \<open>The map of drawings\<close>

lemma drawings_set_new:
  "id_ent e \<notin> set (map id_ent ds) \<Longrightarrow> drawings_set e ds = ds @ [e]"
  by (induction ds) auto

lemma fold_drawings_set_distinct:
  "distinct (map id_ent (acc @ xs)) \<Longrightarrow> fold drawings_set xs acc = acc @ xs"
proof (induction xs arbitrary: acc)
  case Nil
  then show ?case by simp
next
  case (Cons x xs)
  from Cons.prems have new: "id_ent x \<notin> set (map id_ent acc)" by auto
  from Cons.prems have "distinct (map id_ent ((acc @ [x]) @ xs))" by simp
  from Cons.IH [OF this] new show ?case by (simp add: drawings_set_new)
qed

lemma drawings_applyDrawings:
  "distinct (map id_ent es) \<Longrightarrow> drawings (applyDrawings es s) = normalizeZ es"
  by (simp add: applyDrawings_def Let_def rebuildIndex_def fold_drawings_set_distinct)

lemma sortedDrawings_applyDrawings:
  "distinct (map id_ent es) \<Longrightarrow> sortedDrawings (applyDrawings es s) = normalizeZ es"
  by (simp add: sortedDrawings_def drawings_applyDrawings)

lemma history_applyDrawings [simp]: "history (applyDrawings es s) = history s"
  by (simp add: applyDrawings_def Let_def rebuildIndex_def)

lemma drawings_notify [simp]: "drawings (notify s) = drawings s"
  by (simp add: notify_def)

lemma history_notify [simp]: "history (notify s) = history s"
  by (simp add: notify_def)

lemma sortedDrawings_notify [simp]: "sortedDrawings (notify s) = sortedDrawings s"
  by (simp add: sortedDrawings_def)

lemma drawings_pushHistory [simp]: "drawings (pushHistory lbl bef aft s) = drawings s"
  by (simp add: pushHistory_def now_def)

lemma sortedDrawings_pushHistory [simp]:
  "sortedDrawings (pushHistory lbl bef aft s) = sortedDrawings s"
  by (simp add: sortedDrawings_def)

lemma distinct_sortedDrawings [simp]:
  "distinct (map id_ent (sortedDrawings s)) = distinct (map id_ent (drawings s))"
  by (simp add: sortedDrawings_def distinct_ids_sort)

section \<open>bringToFront, sendToBack\<close>

lemma ids_drawings_modify [simp]: "map id_ent (drawings_modify i f ds) = map id_ent ds"
  if "\<And>d. id_ent (f d) = id_ent d"
  by (induction ds) (simp_all add: drawings_modify_def that)

lemma ids_frontStep: "map id_ent (drawings (snd (frontStep i acc))) = map id_ent (drawings (snd acc))"
  by (simp add: frontStep_def Let_def now_def split: option.splits)

lemma ids_backStep: "map id_ent (drawings (snd (backStep i acc))) = map id_ent (drawings (snd acc))"
  by (simp add: backStep_def Let_def now_def split: option.splits)

lemma ids_fold_frontStep:
  "map id_ent (drawings (snd (fold frontStep is acc))) = map id_ent (drawings (snd acc))"
  by (induction "is" arbitrary: acc) (simp_all add: ids_frontStep)

lemma ids_fold_backStep:
  "map id_ent (drawings (snd (fold backStep is acc))) = map id_ent (drawings (snd acc))"
  by (induction "is" arbitrary: acc) (simp_all add: ids_backStep)

lemma reorder_result:
  assumes "distinct (map id_ent (drawings s1))"
  shows "sortedDrawings (notify (pushHistory lbl bef aft'
            (applyDrawings (normalizeZ (sortedDrawings s1)) s1))) = normalizeZ (drawings s1)"
  using assms by (simp add: sortedDrawings_applyDrawings) (simp add: sortedDrawings_def)

text \<open>
  Claim C7. After \<^verbatim>\<open>bringToFront\<close> or \<^verbatim>\<open>sendToBack\<close> with a non-empty id list,
  the \<open>n\<close> entities of the engine, read in paint order, carry the zIndex values
  \<open>0, 1, \<dots>, n - 1\<close>, and their order is the order by zIndex that the reassignment loop
  left before the normalisation (a stable sort). The entity map is assumed to be a map:
  no two entries have the same id, as in every state an engine can reach
  (\<open>reachable_distinct_ids\<close>).
\<close>

theorem reorder_leaves_contiguous_zIndex:
  assumes "is \<noteq> []" and "distinct (map id_ent (drawings s))"
  shows "map zIndex (sortedDrawings (bringToFront is s)) = map real [0 ..< length (drawings s)]
         \<and> map id_ent (sortedDrawings (bringToFront is s))
             = map id_ent (sort_key zIndex (drawings (snd (fold frontStep is (highestZ s, s)))))
         \<and> map zIndex (sortedDrawings (sendToBack is s)) = map real [0 ..< length (drawings s)]
         \<and> map id_ent (sortedDrawings (sendToBack is s))
             = map id_ent (sort_key zIndex (drawings (snd (fold backStep is (- real (length is), s)))))"
proof -
  let ?f = "snd (fold frontStep is (highestZ s, s))"
  let ?b = "snd (fold backStep is (- real (length is), s))"
  have idf: "map id_ent (drawings ?f) = map id_ent (drawings s)"
    by (simp add: ids_fold_frontStep)
  have idb: "map id_ent (drawings ?b) = map id_ent (drawings s)"
    by (simp add: ids_fold_backStep)
  from idf assms(2) have df: "distinct (map id_ent (drawings ?f))" by simp
  from idb assms(2) have db: "distinct (map id_ent (drawings ?b))" by simp
  from idf have lf: "length (drawings ?f) = length (drawings s)" by (metis length_map)
  from idb have lb: "length (drawings ?b) = length (drawings s)" by (metis length_map)
  have f: "sortedDrawings (bringToFront is s) = normalizeZ (drawings ?f)"
    using assms(1) reorder_result [OF df] by (simp add: bringToFront_def Let_def)
  have b: "sortedDrawings (sendToBack is s) = normalizeZ (drawings ?b)"
    using assms(1) reorder_result [OF db] by (simp add: sendToBack_def Let_def)
  show ?thesis
    unfolding f b by (simp add: zIndex_normalizeZ id_ent_normalizeZ lf lb)
qed

section \<open>Export and import\<close>

lemma sameButZ_fields:
  "sameButZ xs ys \<Longrightarrow>
     map (\<lambda>d. (id_ent d, points d, style d, visible d, locked d)) xs
       = map (\<lambda>d. (id_ent d, points d, style d, visible d, locked d)) ys"
proof -
  assume "sameButZ xs ys"
  then have "map ((\<lambda>d. (id_ent d, points d, style d, visible d, locked d)) \<circ> (\<lambda>d. d \<lparr> zIndex := 0 \<rparr>)) xs
    = map ((\<lambda>d. (id_ent d, points d, style d, visible d, locked d)) \<circ> (\<lambda>d. d \<lparr> zIndex := 0 \<rparr>)) ys"
    unfolding sameButZ_def map_map [symmetric] by simp
  then show ?thesis by (simp add: comp_def)
qed

lemma drawings_selectionSet [simp]: "drawings (selectionSet is s) = drawings s"
  by (simp add: selectionSet_def)

lemma import_export_drawings:
  assumes "distinct (map id_ent (drawings s))"
  shows "importSnapshot (exportSnapshot s) e = (None, e') \<Longrightarrow> sortedDrawings e' = normalizeZ (drawings s)"
  using assms
  by (auto simp: importSnapshot_def exportSnapshot_def Let_def sortedDrawings_def
      drawings_applyDrawings distinct_ids_sort)

text \<open>
  Claim C2. Importing the snapshot exported by an engine into a newly constructed engine
  succeeds, and the drawing list published by the new engine agrees with the one
  published by the exporting engine, entity by entity in the same paint order, in id,
  points, style, visibility and lock flag; indeed in every field except zIndex, which
  the import renumbers. The entity map of the exporting engine is assumed to be a map:
  no two entries have the same id, as in every state an engine can reach
  (\<open>reachable_distinct_ids\<close>).
\<close>

theorem export_import_reproduces_drawings:
  assumes "distinct (map id_ent (drawings s))"
  shows "fst (importSnapshot (exportSnapshot s) (createDrawingEngine options clk gen)) = None
    \<and> map (\<lambda>d. (id_ent d, points d, style d, visible d, locked d))
          (drawings_v (getState (snd (importSnapshot (exportSnapshot s)
                                        (createDrawingEngine options clk gen)))))
        = map (\<lambda>d. (id_ent d, points d, style d, visible d, locked d)) (drawings_v (getState s))
    \<and> sameButZ (drawings_v (getState (snd (importSnapshot (exportSnapshot s)
                                        (createDrawingEngine options clk gen)))))
                (drawings_v (getState s))"
proof -
  let ?e = "createDrawingEngine options clk gen"
  obtain r e' where r: "importSnapshot (exportSnapshot s) ?e = (r, e')" by (cases "importSnapshot (exportSnapshot s) ?e")
  have ok: "r = None" using r by (auto simp: importSnapshot_def exportSnapshot_def Let_def)
  with r import_export_drawings [OF assms] have sd: "sortedDrawings e' = normalizeZ (drawings s)" by simp
  have same: "sameButZ (drawings_v (getState e')) (drawings_v (getState s))"
    using sameButZ_normalizeZ [of "drawings s"]
    by (simp add: getState_def stateView_def sd) (simp add: sortedDrawings_def)
  from sameButZ_fields [OF same] same r ok show ?thesis by simp
qed

section \<open>Evaluation of sample sessions\<close>

text \<open>
  The defining equations in the form used to run the model on concrete inputs: pairs
  are taken apart with \<open>fst\<close> and \<open>snd\<close>.
\<close>

lemmas engine_defs =
  createDrawingEngine_def mergeOptions_def mergeStyle_def orElse_def DEFAULT_OPTIONS_def
  rebuildIndex_def index_rebuild_def sortedDrawings_def setTool_def notify_def pointerDown_def
  pointerUp_def pointerMove_def hitTolerance_def toPoint_def mathRound_def startCreating_def
  now_def nanoid_def truthy_def finishCreating_def commitNewEntity_def newEntity_def
  highestZ_def selectionSet_def addSelection_def removeSelection_def newSet_def set_add_def
  set_delete_def lastOrNull_def drawings_has_def drawings_get_def drawings_modify_def
  drawings_delete_def pushHistory_def styleChanged_def history_push_def history_clear_def
  equalPoints_def distPointPx_def EPS_def entityBBox_def bboxFromPoints_def
  expandBBoxByPixels_def topMostHit_def queryPoint_def hitTestEntity_def lineBodyHit_def
  bandBodyHit_def rectBodyHit_def textBodyHit_def isLineTool_def applyMarqueeSelection_def
  rectContainsBBox_def normalizeBBox_def undo_def redo_def history_undo_def history_redo_def
  applyDrawings_def normalizeZ_def activeSelectionIds_def truthyId_def getState_def
  stateView_def interactionModeOf_def history_depth_def TEXT_BOX_WIDTH_PX_def
  TEXT_BOX_HEIGHT_PX_def keyDown_def keyboardMoveSelection_def moveStep_def modifierUndo_def
  translatePoint_def startDragSelection_def deleteSelection_def selectAll_def
  clearSelection_def bringToFront_def sendToBack_def frontStep_def backStep_def
  exportSnapshot_def importSnapshot_def segmentDistancePx_def rayDistancePx_def
  lineDistancePx_def clamp_def nearRectEdge_def dragStep_def altDragDuplicate_def
  duplicateStep_def duplicateSelection_def

lemmas engine_eval = engine_defs [unfolded split_def]

lemma registry_lookup:
  "builtinRegistry ''cursor'' = Some (mkTool ''cursor'' 0 0 None)"
  "builtinRegistry ''horizontal_line'' = Some (mkTool ''horizontal_line'' 1 1 None)"
  "builtinRegistry ''trend_line'' = Some (mkTool ''trend_line'' 2 2 None)"
  by (simp_all add: builtinRegistry_def BUILTIN_TOOLS_def mkTool_def)

lemma toLowerCase_arrow: "toLowerCase ''ArrowRight'' = ''arrowright''"
  by code_simp

lemmas session_eval =
  engine_eval registry_lookup mkTool_def Let_def hypot_le_iff hypot_ge_iff
  freshEngine_def testOptions_def pressKey_def toLowerCase_arrow

lemma oneLine_drawings:
  "drawings oneLine =
     [\<lparr> id_ent = ''a'', tool = ''horizontal_line'', points = [\<lparr> logical = 10, price = 100 \<rparr>],
        style = DEFAULT_STYLE, text_ent = None, visible = True, locked = False, groupId = None,
        zIndex = 0, metadata = None, createdAt = 1000, updatedAt = 1000 \<rparr>]"
  unfolding oneLine_def by (simp add: session_eval cong: let_weak_cong)

lemma twoLines_ids: "map id_ent (drawings twoLines) = [''a'', ''b'']"
  unfolding twoLines_def oneLine_def by (simp add: session_eval cong: let_weak_cong)

lemma nudged: "map points (sortedDrawings nudgedLine) = [[\<lparr> logical = 11, price = 100 \<rparr>]]"
  "length (undoStack (history nudgedLine)) = 1"
  "map points (sortedDrawings (redo (undo nudgedLine))) = [[\<lparr> logical = 10, price = 100 \<rparr>]]"
  unfolding nudgedLine_def oneLine_def by (simp_all add: session_eval cong: let_weak_cong)

section \<open>Undo and redo\<close>

lemma history_store_eta:
  "h \<lparr> undoStack := undoStack h, redoStack := redoStack h \<rparr> = (h :: historyStore)"
  by simp

lemma undo_then_redo:
  assumes "undoStack (history s) \<noteq> []"
    and "distinct (map id_ent (after (last (undoStack (history s)))))"
  shows "sortedDrawings (redo (undo s)) = normalizeZ (after (last (undoStack (history s))))"
    and "history (redo (undo s)) = history s"
  using assms
  by (simp_all add: undo_def redo_def history_undo_def history_redo_def Let_def
      sortedDrawings_applyDrawings)

lemma redo_then_undo:
  assumes "redoStack (history s) \<noteq> []"
    and "distinct (map id_ent (before (last (redoStack (history s)))))"
  shows "sortedDrawings (undo (redo s)) = normalizeZ (before (last (redoStack (history s))))"
    and "history (undo (redo s)) = history s"
  using assms
  by (simp_all add: undo_def redo_def history_undo_def history_redo_def Let_def
      sortedDrawings_applyDrawings)

lemma reachable_steps:
  "reachable s \<Longrightarrow> reachable (snd (setTool t s))"
  "reachable s \<Longrightarrow> reachable (pointerDown input s)"
  "reachable s \<Longrightarrow> reachable (pointerMove input s)"
  "reachable s \<Longrightarrow> reachable (pointerUp input s)"
  "reachable s \<Longrightarrow> reachable (keyDown k s)"
  "reachable s \<Longrightarrow> reachable (undo s)"
  "reachable s \<Longrightarrow> reachable (redo s)"
  "reachable s \<Longrightarrow> reachable (deleteSelection s)"
  "reachable s \<Longrightarrow> reachable (selectAll s)"
  "reachable s \<Longrightarrow> reachable (snd (importSnapshot snapshot s))"
  using reachable.performed [of s "OpSetTool t"] reachable.performed [of s "OpPointerDown input"]
    reachable.performed [of s "OpPointerMove input"] reachable.performed [of s "OpPointerUp input"]
    reachable.performed [of s "OpKeyDown k"] reachable.performed [of s OpUndo]
    reachable.performed [of s OpRedo] reachable.performed [of s OpDeleteSelection]
    reachable.performed [of s OpSelectAll] reachable.performed [of s "OpImportSnapshot snapshot"]
  by simp_all

lemma sample_sessions_reachable:
  "reachable oneLine" "reachable twoLines" "reachable nudgedLine" "reachable marqueeStart"
  "reachable touchMoved" "reachable lineClick" "reachable lineDrag"
  unfolding oneLine_def twoLines_def nudgedLine_def marqueeStart_def touchMoved_def touchDown_def
    lineClick_def lineDrag_def freshEngine_def
  by (intro reachable_steps reachable.created)+

lemma shiftAt_sel [simp]:
  "x_inp (shiftAt l p) = l" "y_inp (shiftAt l p) = p"
  "logical_inp (shiftAt l p) = l" "price_inp (shiftAt l p) = p"
  "viewport (shiftAt l p) = \<lparr> logicalPerPixel = 1, pricePerPixel = 1 \<rparr>"
  "pointerType_inp (shiftAt l p) = Some Mouse" "button (shiftAt l p) = Some 0"
  "shiftKey (shiftAt l p) = Some True" "altKey (shiftAt l p) = None"
  by (simp_all add: shiftAt_def)

lemma touchAt_sel [simp]:
  "x_inp (touchAt l p) = l" "y_inp (touchAt l p) = p"
  "logical_inp (touchAt l p) = l" "price_inp (touchAt l p) = p"
  "viewport (touchAt l p) = \<lparr> logicalPerPixel = 1, pricePerPixel = 1 \<rparr>"
  "pointerType_inp (touchAt l p) = Some Touch" "button (touchAt l p) = Some 0"
  "shiftKey (touchAt l p) = None" "altKey (touchAt l p) = None"
  by (simp_all add: touchAt_def)

text \<open>
  Two sessions for claim C8. In the second one \<^verbatim>\<open>applyDrawings\<close> tests the
  primary id for truthiness, so a primary id that is the empty string is kept when its
  entity disappears.
\<close>

lemma emptyIdSession_reachable: "reachable emptyIdSession"
  unfolding emptyIdSession_def freshEngine_def by (intro reachable_steps reachable.created)

lemma empty_id_primary_survives_redo:
  "primaryId emptyIdSession = Some [] \<and> selection emptyIdSession = []
   \<and> drawings emptyIdSession = []
   \<and> primaryId_v (selection_v (getState emptyIdSession)) = Some []
   \<and> ids (selection_v (getState emptyIdSession)) = []"
  unfolding emptyIdSession_def emptyIdSnapshot_def testLine_def
  by (simp add: session_eval cong: let_weak_cong)

lemma staleMarquee_reachable: "reachable staleMarquee"
  unfolding staleMarquee_def oneLine_def freshEngine_def
  by (intro reachable_steps reachable.created)

text \<open>
  Claim C8 at two failing sessions, both reachable through public operations. After
  the first, the published selection has the primary id \<open>a\<close> and an empty id list, and no
  entity is left: \<^verbatim>\<open>undo\<close> removed the entity but left the marquee interaction
  open, and the next \<^verbatim>\<open>pointerMove\<close> put the stale base selection back. After the
  second, the engine's own primary id is the empty string and its selection set is
  empty.
\<close>

theorem primary_id_outside_selection:
  "reachable staleMarquee
   \<and> primaryId_v (selection_v (getState staleMarquee)) = Some ''a''
   \<and> ids (selection_v (getState staleMarquee)) = []
   \<and> drawings_v (getState staleMarquee) = []
   \<and> reachable emptyIdSession
   \<and> primaryId emptyIdSession = Some []
   \<and> selection emptyIdSession = []"
proof -
  have "primaryId_v (selection_v (getState staleMarquee)) = Some ''a''
     \<and> ids (selection_v (getState staleMarquee)) = []
     \<and> drawings_v (getState staleMarquee) = []"
    unfolding staleMarquee_def oneLine_def by (simp add: session_eval cong: let_weak_cong)
  with staleMarquee_reachable emptyIdSession_reachable empty_id_primary_survives_redo
  show ?thesis by simp
qed

lemma marqueeStart_interaction:
  "interaction marqueeStart
     = Marquee \<lparr> start_m = \<lparr> logical = 8, price = 110 \<rparr>, current_m = \<lparr> logical = 8, price = 110 \<rparr>,
                 baseSelection = [] \<rparr>"
  unfolding marqueeStart_def oneLine_def by (simp add: session_eval cong: let_weak_cong)

text \<open>
  The marquee from (8, 110) to (12, 90) contains the anchor of the horizontal line \<open>a\<close>
  with its one-pixel padding, and the engine selects \<open>a\<close>; the per-tool box of a
  horizontal line reaches four pixels to each side of the anchor and is not inside the
  marquee, so by the claim's rule nothing would be selected.
\<close>

theorem marquee_counterexample:
  "selection (pointerMove (mouseAt 12 90) marqueeStart) = [''a'']
   \<and> marqueeClaimed \<lparr> start_m = \<lparr> logical = 8, price = 110 \<rparr>,
                      current_m = \<lparr> logical = 8, price = 110 \<rparr>, baseSelection = [] \<rparr>
        \<lparr> logical = 12, price = 90 \<rparr> \<lparr> logicalPerPixel = 1, pricePerPixel = 1 \<rparr>
        (drawings marqueeStart) = {}"
  unfolding marqueeStart_def oneLine_def marqueeClaimed_def
  by (simp add: session_eval cong: let_weak_cong)

section \<open>Marquee\<close>

lemma set_fold_set_add: "set (fold set_add xs acc) = set acc \<union> set xs"
  by (induction xs arbitrary: acc) (auto simp: set_add_def)

lemma set_newSet [simp]: "set (newSet xs) = set xs"
  by (simp add: newSet_def set_fold_set_add)

text \<open>
  Claim C4, amended. After a \<^verbatim>\<open>pointerMove\<close> in the marquee interaction the selection
  consists of the base selection and of exactly those entities for which the min/max box
  over the entity's own points (not the per-tool box of the hit test), padded by one
  pixel, or two for a freehand stroke, through the scale of the event's viewport, lies
  inside the rectangle spanned by the marquee start and the snapped pointer position.
\<close>

theorem marquee_selects_contained_point_boxes:
  assumes "interaction s = Marquee m"
  shows "set (selection (pointerMove input s))
         = set (baseSelection m)
           \<union> set (map id_ent
                (filter (\<lambda>d. rectContainsBBox (bboxFromPoints [start_m m, toPoint input s])
                               (expandBBoxByPixels (bboxFromPoints (points d)) (viewport input)
                                  (if tool d = ''brush'' then 2 else 1)))
                        (drawings s)))"
  using assms
  by (simp add: pointerMove_def Let_def applyMarqueeSelection_def notify_def set_fold_set_add
      toPoint_def)

theorem marquee_selects_contained_point_boxes_witness:
  "interaction marqueeStart
     = Marquee \<lparr> start_m = \<lparr> logical = 8, price = 110 \<rparr>, current_m = \<lparr> logical = 8, price = 110 \<rparr>,
                 baseSelection = [] \<rparr>
   \<and> set (selection (pointerMove (mouseAt 12 90) marqueeStart)) = {''a''}
   \<and> set (selection (pointerMove (mouseAt 12 101) marqueeStart)) = {}"
proof -
  have d: "drawings marqueeStart =
     [\<lparr> id_ent = ''a'', tool = ''horizontal_line'', points = [\<lparr> logical = 10, price = 100 \<rparr>],
        style = DEFAULT_STYLE, text_ent = None, visible = True, locked = False, groupId = None,
        zIndex = 0, metadata = None, createdAt = 1000, updatedAt = 1000 \<rparr>]"
    and o: "snapMode_opt (opts marqueeStart) = SnapWeak"
    unfolding marqueeStart_def oneLine_def by (simp_all add: session_eval cong: let_weak_cong)
  note ev = d o toPoint_def mathRound_def rectContainsBBox_def normalizeBBox_def
    bboxFromPoints_def expandBBoxByPixels_def EPS_def Let_def
  show ?thesis
    using marqueeStart_interaction
      marquee_selects_contained_point_boxes [OF marqueeStart_interaction, of "mouseAt 12 90"]
      marquee_selects_contained_point_boxes [OF marqueeStart_interaction, of "mouseAt 12 101"]
    by (simp add: ev)
qed

section \<open>Finishing a two-point creation\<close>

lemma cheapEqual_ids: "cheapEqual a b \<Longrightarrow> map id_ent a = map id_ent b"
  unfolding cheapEqual_def by (induction a b rule: list_all2_induct) simp_all

lemma styleChanged_new_id:
  assumes "e \<in> set aft" and "id_ent e \<notin> set (map id_ent bef)"
  shows "styleChanged bef aft"
proof (rule ccontr)
  assume "\<not> styleChanged bef aft"
  then have "map id_ent bef = map id_ent aft" by (simp add: styleChanged_iff cheapEqual_ids)
  with assms show False by (metis image_eqI list.set_map)
qed

lemma in_drawings_set: "e \<in> set (drawings_set e ds)"
  by (induction ds) simp_all

lemma ids_drawings_set: "set (map id_ent (drawings_set e ds)) = insert (id_ent e) (set (map id_ent ds))"
  by (induction ds) auto

lemma highestZ_Max: "highestZ s = Max (insert (- 1) (set (map zIndex (drawings s))))"
proof -
  have "fold (\<lambda>drawing m. max m (zIndex drawing)) ds m0 = Max (insert m0 (set (map zIndex ds)))"
    for ds :: "drawingEntity list" and m0 :: real
  proof (induction ds arbitrary: m0)
    case Nil
    then show ?case by simp
  next
    case (Cons d ds)
    have "Max (insert (max m0 (zIndex d)) (set (map zIndex ds)))
          = Max (insert m0 (insert (zIndex d) (set (map zIndex ds))))"
      by (cases "set (map zIndex ds) = {}") (simp_all add: max.assoc max.commute)
    with Cons show ?case by simp
  qed
  then show ?thesis by (simp add: highestZ_def)
qed

lemma toPoint_opts: "opts s' = opts s \<Longrightarrow> toPoint input s' = toPoint input s"
  by (simp add: toPoint_def cong: if_cong)

text \<open>
  Claim C6, amended. Consider a \<^verbatim>\<open>pointerUp\<close> that ends a creating interaction with a
  non-continuous tool of two points (\<open>maxPoints\<close> other than 1, \<open>minPoints\<close> at most 2),
  and that is not discarded by the hold-to-draw guard (the guard discards a touch gesture
  that is still pending and younger than the hold time). The first point is the first
  captured point, the second is the second captured point, or the pointer position of
  the event when no move was captured. The interaction ends in every case. If the two
  points are within 2 pixels of each other, the entity map, the history and the selection
  stay as they were. Otherwise one entity is stored under its id, replacing the entity
  of that id if there is one: it has the id handed out by the id generator, the tool's
  id, the two points, the engine's default style overridden by the tool's default style,
  a zIndex one above \<open>highestZ\<close> (the largest zIndex, or \<open>-1\<close>), and it has passed
  through the tool's \<open>normalize\<close> hook if there is one. The selection becomes that one
  id, which is also the primary id. A frame labelled \<open>create:\<close> and the tool id, from
  the snapshot taken at \<^verbatim>\<open>pointerDown\<close> to the new entity list, is pushed on the
  history exactly when the cheap structural check sees a change between the two lists.
  Nothing in the engine checks that the id is new; when it is not yet in the map, the map
  grows by exactly this entity, and when it does not occur in the snapshot, the frame is
  pushed.
\<close>

theorem two_point_creation_finishes:
  assumes "interaction s = Creating c"
    and "\<not> truthy (continuous (tool_c c))"
    and "maxPoints (tool_c c) \<noteq> 1"
    and "minPoints (tool_c c) \<le> 2"
    and "\<not> (pendingHold c \<and> pointerType_c c = Some Touch
            \<and> clock s (clockCalls s) - startedAt c < holdToDrawMs (opts s))"
  shows
    "let first = (case points_c c of [] \<Rightarrow> toPoint input s | p0 # _ \<Rightarrow> p0);
         second = (case points_c c of _ # p1 # _ \<Rightarrow> p1 | _ \<Rightarrow> toPoint input s);
         base = \<lparr> id_ent = idSource s (idCalls s), tool = id_tool (tool_c c),
                  points = [first, second],
                  style = mergeStyle (defaultStyle (opts s)) (defaultStyle_tool (tool_c c)),
                  text_ent = (if id_tool (tool_c c) = ''text'' then Some ''Text'' else None),
                  visible = True, locked = False, groupId = None,
                  zIndex = highestZ s + 1, metadata = None,
                  createdAt = clock s (clockCalls s + 1), updatedAt = clock s (clockCalls s + 2) \<rparr>;
         entity = (case normalize (tool_c c) of None \<Rightarrow> base | Some hook \<Rightarrow> hook base);
         frame = \<lparr> label = ''create:'' @ id_tool (tool_c c), before = beforeSnapshot c,
                   after = sort_key zIndex (drawings_set entity (drawings s)),
                   at_time = clock s (clockCalls s + 3) \<rparr>;
         s' = pointerUp input s
     in interaction s' = Idle
        \<and> (equalPoints first second (viewport input) 2 \<longrightarrow>
              drawings s' = drawings s \<and> history s' = history s \<and> selection s' = selection s)
        \<and> (\<not> equalPoints first second (viewport input) 2 \<longrightarrow>
              drawings s' = drawings_set entity (drawings s)
              \<and> selection s' = [id_ent entity] \<and> primaryId s' = Some (id_ent entity)
              \<and> history s' = (if styleChanged (before frame) (after frame)
                              then history_push frame (history s) else history s)
              \<and> (id_ent entity \<notin> set (map id_ent (drawings s)) \<longrightarrow>
                    drawings s' = drawings s @ [entity])
              \<and> (id_ent entity \<notin> set (map id_ent (beforeSnapshot c)) \<longrightarrow>
                    history s' = history_push frame (history s)))"
proof -
  define first where "first = (case points_c c of [] \<Rightarrow> toPoint input s | p0 # _ \<Rightarrow> p0)"
  define second where "second = (case points_c c of _ # p1 # _ \<Rightarrow> p1 | _ \<Rightarrow> toPoint input s)"
  define base where "base =
     \<lparr> id_ent = idSource s (idCalls s), tool = id_tool (tool_c c), points = [first, second],
       style = mergeStyle (defaultStyle (opts s)) (defaultStyle_tool (tool_c c)),
       text_ent = (if id_tool (tool_c c) = ''text'' then Some ''Text'' else None),
       visible = True, locked = False, groupId = None, zIndex = highestZ s + 1, metadata = None,
       createdAt = clock s (clockCalls s + 1), updatedAt = clock s (clockCalls s + 2) \<rparr>"
  define entity where "entity = (case normalize (tool_c c) of None \<Rightarrow> base | Some hook \<Rightarrow> hook base)"
  define s1 where "s1 = s \<lparr> lastViewport := viewport input, clockCalls := Suc (clockCalls s) \<rparr>"
  have o1: "opts s1 = opts s" by (simp add: s1_def)
  have tp: "toPoint input s1 = toPoint input s" by (rule toPoint_opts) (rule o1)
  have fin: "pointerUp input s =
      (if equalPoints first second (viewport input) 2 then notify (s1 \<lparr> interaction := Idle \<rparr>)
       else (commitNewEntity (tool_c c) [first, second] (beforeSnapshot c) s1) \<lparr> interaction := Idle \<rparr>)"
  proof -
    have nh: "(pendingHold c \<and> pointerType_c c = Some Touch
               \<and> clock s (clockCalls s) - startedAt c < holdToDrawMs (opts s)) = False"
      using assms(5) by blast
    show ?thesis
      using assms(1-3)
      by (simp add: pointerUp_def finishCreating_def Let_def now_def split_def s1_def [symmetric]
          tp o1 first_def second_def nh)
  qed
  have ne: "newEntity (tool_c c) [first, second] s1
            = (base, s1 \<lparr> idCalls := Suc (idCalls s), clockCalls := Suc (Suc (Suc (clockCalls s))) \<rparr>)"
    by (simp add: newEntity_def nanoid_def now_def Let_def base_def s1_def highestZ_def)
  define s2 where "s2 = s1 \<lparr> idCalls := Suc (idCalls s), clockCalls := Suc (Suc (Suc (clockCalls s))),
                              drawings := drawings_set entity (drawings s) \<rparr>"
  have has: "drawings_has (drawings_set entity (drawings s)) (id_ent entity)"
    using ids_drawings_set [of entity "drawings s"] by (simp add: drawings_has_def)
  have sel: "selectionSet [id_ent entity] s2
             = s2 \<lparr> selection := [id_ent entity], primaryId := Some (id_ent entity) \<rparr>"
    using has by (simp add: selectionSet_def s2_def newSet_def set_add_def lastOrNull_def)
  have commit: "commitNewEntity (tool_c c) [first, second] (beforeSnapshot c) s1
      = notify (rebuildIndex (viewport input) (hitTolerancePxMouse (opts s))
          (pushHistory (''create:'' @ id_tool (tool_c c)) (beforeSnapshot c)
             (sort_key zIndex (drawings_set entity (drawings s)))
             (s2 \<lparr> selection := [id_ent entity], primaryId := Some (id_ent entity) \<rparr>)))"
    using assms(4) sel
    by (simp add: commitNewEntity_def ne Let_def entity_def [symmetric] s2_def [symmetric])
       (simp add: s2_def s1_def sortedDrawings_def pushHistory_def now_def rebuildIndex_def)
  define frame where "frame =
     \<lparr> label = ''create:'' @ id_tool (tool_c c), before = beforeSnapshot c,
       after = sort_key zIndex (drawings_set entity (drawings s)),
       at_time = clock s (clockCalls s + 3) \<rparr>"
  have fr: "before frame = beforeSnapshot c"
    "after frame = sort_key zIndex (drawings_set entity (drawings s))"
    by (simp_all add: frame_def)
  show ?thesis
    unfolding Let_def first_def [symmetric] second_def [symmetric] base_def [symmetric]
      entity_def [symmetric] frame_def [symmetric]
  proof (intro conjI impI)
    show "interaction (pointerUp input s) = Idle"
      by (simp add: fin notify_def)
  next
    assume eq: "equalPoints first second (viewport input) 2"
    then show "drawings (pointerUp input s) = drawings s" "history (pointerUp input s) = history s"
      "selection (pointerUp input s) = selection s"
      by (simp_all add: fin notify_def s1_def)
  next
    assume ne: "\<not> equalPoints first second (viewport input) 2"
    then have pu: "pointerUp input s
        = (commitNewEntity (tool_c c) [first, second] (beforeSnapshot c) s1) \<lparr> interaction := Idle \<rparr>"
      by (simp add: fin)
    show d: "drawings (pointerUp input s) = drawings_set entity (drawings s)"
      by (simp add: pu commit rebuildIndex_def s2_def)
    show "selection (pointerUp input s) = [id_ent entity]"
      by (simp add: pu commit rebuildIndex_def notify_def pushHistory_def now_def)
    show "primaryId (pointerUp input s) = Some (id_ent entity)"
      by (simp add: pu commit rebuildIndex_def notify_def pushHistory_def now_def)
    show h: "history (pointerUp input s) =
               (if styleChanged (before frame) (after frame)
                then history_push frame (history s) else history s)"
      unfolding pu commit fr
      by (simp add: rebuildIndex_def notify_def pushHistory_def now_def s2_def s1_def
          numeral_3_eq_3 frame_def)
    {
      assume "id_ent entity \<notin> set (map id_ent (drawings s))"
      then show "drawings (pointerUp input s) = drawings s @ [entity]"
        by (simp add: d drawings_set_new)
    }
    {
      assume fresh: "id_ent entity \<notin> set (map id_ent (beforeSnapshot c))"
      have "entity \<in> set (sort_key zIndex (drawings_set entity (drawings s)))"
        by (simp add: in_drawings_set)
      from styleChanged_new_id [OF this fresh]
      show "history (pointerUp input s) = history_push frame (history s)"
        by (simp add: h fr)
    }
  qed
qed

section \<open>Every reachable entity map has distinct ids\<close>

lemma distinct_drawings_set:
  "distinct (map id_ent ds) \<Longrightarrow> distinct (map id_ent (drawings_set e ds))"
  by (induction ds) (auto simp: ids_drawings_set [simplified])

lemma distinct_fold_drawings_set:
  "distinct (map id_ent acc) \<Longrightarrow> distinct (map id_ent (fold drawings_set xs acc))"
  by (induction xs arbitrary: acc) (simp_all add: distinct_drawings_set)

lemma distinct_drawings_delete:
  "distinct (map id_ent ds) \<Longrightarrow> distinct (map id_ent (drawings_delete i ds))"
  by (simp add: drawings_delete_def distinct_map_filter)

lemma distinct_fold_drawings_delete:
  "distinct (map id_ent ds) \<Longrightarrow> distinct (map id_ent (fold drawings_delete is ds))"
  by (induction "is" arbitrary: ds) (simp_all add: distinct_drawings_delete)

lemma distinct_applyDrawings: "distinct (map id_ent (drawings (applyDrawings es s)))"
  by (simp add: applyDrawings_def Let_def rebuildIndex_def distinct_fold_drawings_set)

lemma drawings_rebuildIndex [simp]: "drawings (rebuildIndex vp tol s) = drawings s"
  by (simp add: rebuildIndex_def)

lemma drawings_now [simp]: "drawings (snd (now s)) = drawings s"
  by (simp add: now_def)

lemma drawings_nanoid [simp]: "drawings (snd (nanoid s)) = drawings s"
  by (simp add: nanoid_def)

lemma drawings_addSelection [simp]: "drawings (addSelection is s) = drawings s"
  unfolding addSelection_def by (induction "is" arbitrary: s) simp_all

lemma drawings_removeSelection [simp]: "drawings (removeSelection i s) = drawings s"
  by (simp add: removeSelection_def Let_def)

lemma drawings_topMostHit [simp]: "drawings (snd (topMostHit p vp tol s)) = drawings s"
  by (simp add: topMostHit_def Let_def now_def split_def)

lemma drawings_startCreating [simp]: "drawings (startCreating input tdef s) = drawings s"
  by (simp add: startCreating_def Let_def now_def)

lemma drawings_startDragSelection [simp]: "drawings (startDragSelection input s) = drawings s"
  by (simp add: startDragSelection_def Let_def)

lemma drawings_applyMarqueeSelection [simp]:
  "drawings (applyMarqueeSelection st cur base s) = drawings s"
  by (simp add: applyMarqueeSelection_def Let_def)

lemma drawings_newEntity [simp]: "drawings (snd (newEntity tdef pts s)) = drawings s"
  by (simp add: newEntity_def Let_def now_def nanoid_def split_def)

lemma distinct_commitNewEntity:
  "distinct (map id_ent (drawings s)) \<Longrightarrow>
   distinct (map id_ent (drawings (commitNewEntity tdef pts bef s)))"
  by (simp add: commitNewEntity_def Let_def split_def distinct_drawings_set)

lemma distinct_finishCreating:
  "distinct (map id_ent (drawings s)) \<Longrightarrow> distinct (map id_ent (drawings (finishCreating input s)))"
  by (simp add: finishCreating_def Let_def split_def distinct_commitNewEntity now_def
      split: internalInteraction.splits)

lemma ids_moveStep [simp]: "map id_ent (drawings (moveStep delta i s)) = map id_ent (drawings s)"
  by (simp add: moveStep_def Let_def now_def split: option.splits)

lemma ids_fold_moveStep [simp]:
  "map id_ent (drawings (fold (moveStep delta) is s)) = map id_ent (drawings s)"
  by (induction "is" arbitrary: s) simp_all

lemma ids_dragStep [simp]: "map id_ent (drawings (dragStep delta entry s)) = map id_ent (drawings s)"
  by (simp add: dragStep_def Let_def now_def split: option.splits)

lemma ids_fold_dragStep [simp]:
  "map id_ent (drawings (fold (dragStep delta) es s)) = map id_ent (drawings s)"
  by (induction es arbitrary: s) simp_all

lemma ids_flagStep [simp]:
  "(\<And>t d. id_ent (f t d) = id_ent d) \<Longrightarrow>
   map id_ent (drawings (flagStep f i s)) = map id_ent (drawings s)"
  by (simp add: flagStep_def Let_def now_def split: option.splits)

lemma ids_fold_flagStep [simp]:
  "(\<And>t d. id_ent (f t d) = id_ent d) \<Longrightarrow>
   map id_ent (drawings (fold (flagStep f) is s)) = map id_ent (drawings s)"
  by (induction "is" arbitrary: s) simp_all

lemma distinct_duplicateStep:
  "distinct (map id_ent (drawings (fst acc))) \<Longrightarrow>
   distinct (map id_ent (drawings (fst (duplicateStep delta i acc))))"
  by (simp add: duplicateStep_def Let_def now_def nanoid_def split_def distinct_drawings_set
      split: option.splits)

lemma distinct_fold_duplicateStep:
  "distinct (map id_ent (drawings (fst acc))) \<Longrightarrow>
   distinct (map id_ent (drawings (fst (fold (duplicateStep delta) is acc))))"
  by (induction "is" arbitrary: acc) (simp_all add: distinct_duplicateStep)

lemma distinct_keyboardMoveSelection:
  "distinct (map id_ent (drawings s)) \<Longrightarrow>
   distinct (map id_ent (drawings (keyboardMoveSelection dx dy s)))"
  by (simp add: keyboardMoveSelection_def Let_def)

lemma distinct_altDragDuplicate:
  "distinct (map id_ent (drawings s)) \<Longrightarrow> distinct (map id_ent (drawings (altDragDuplicate input s)))"
  using distinct_fold_duplicateStep [of "(s, [])"]
  by (simp add: altDragDuplicate_def Let_def split_def)

lemma distinct_pointerDown:
  "distinct (map id_ent (drawings s)) \<Longrightarrow> distinct (map id_ent (drawings (pointerDown input s)))"
  by (simp add: pointerDown_def Let_def split_def distinct_altDragDuplicate
      split: option.splits)

lemma distinct_pointerMove:
  "distinct (map id_ent (drawings s)) \<Longrightarrow> distinct (map id_ent (drawings (pointerMove input s)))"
  by (simp add: pointerMove_def Let_def split_def now_def split: internalInteraction.splits)

lemma distinct_pointerUp:
  "distinct (map id_ent (drawings s)) \<Longrightarrow> distinct (map id_ent (drawings (pointerUp input s)))"
  by (simp add: pointerUp_def Let_def distinct_finishCreating split: internalInteraction.splits)

lemma distinct_undo:
  "distinct (map id_ent (drawings s)) \<Longrightarrow> distinct (map id_ent (drawings (undo s)))"
  by (simp add: undo_def history_undo_def Let_def distinct_applyDrawings)

lemma distinct_redo:
  "distinct (map id_ent (drawings s)) \<Longrightarrow> distinct (map id_ent (drawings (redo s)))"
  by (simp add: redo_def history_redo_def Let_def distinct_applyDrawings)

lemma distinct_deleteSelection:
  "distinct (map id_ent (drawings s)) \<Longrightarrow> distinct (map id_ent (drawings (deleteSelection s)))"
  by (simp add: deleteSelection_def Let_def distinct_fold_drawings_delete)

lemma distinct_duplicateSelection:
  "distinct (map id_ent (drawings s)) \<Longrightarrow> distinct (map id_ent (drawings (duplicateSelection s)))"
  using distinct_fold_duplicateStep [of "(s, [])"]
  by (simp add: duplicateSelection_def Let_def split_def)

lemma distinct_keyDown:
  "distinct (map id_ent (drawings s)) \<Longrightarrow> distinct (map id_ent (drawings (keyDown input s)))"
  by (simp add: keyDown_def Let_def distinct_undo distinct_redo distinct_deleteSelection
      distinct_keyboardMoveSelection distinct_duplicateSelection selectAll_def)

lemma distinct_perform:
  assumes d: "distinct (map id_ent (drawings s))"
  shows "distinct (map id_ent (drawings (perform op s)))"
proof (cases op)
  case (OpSetTool t)
  with d show ?thesis by (simp add: setTool_def)
next
  case (OpImportSnapshot snapshot)
  with d show ?thesis by (simp add: importSnapshot_def Let_def distinct_applyDrawings)
next
  case (OpBringToFront "is")
  with d show ?thesis by (simp add: bringToFront_def Let_def distinct_applyDrawings)
next
  case (OpSendToBack "is")
  with d show ?thesis by (simp add: sendToBack_def Let_def distinct_applyDrawings)
qed (use d in \<open>simp_all add: setOptions_def registerTool_def distinct_pointerDown
      distinct_pointerMove distinct_pointerUp distinct_keyDown keyUp_def distinct_undo
      distinct_redo distinct_deleteSelection selectAll_def clearSelection_def setVisibility_def
      setLocked_def distinct_duplicateSelection reportFrame_def Let_def\<close>)

lemma reachable_distinct_ids: "reachable s \<Longrightarrow> distinct (map id_ent (drawings s))"
proof (induction rule: reachable.induct)
  case (created options clk gen)
  show ?case by (simp add: createDrawingEngine_def Let_def)
next
  case (performed s op)
  from performed.IH show ?case by (rule distinct_perform)
qed

section \<open>The primary id in the engine's own state\<close>

text \<open>
  In the engine's own state the primary id can leave the selection set only as the empty
  string: every public operation preserves \<^const>\<open>primaryOk\<close>.
\<close>

lemma primaryOk_cong:
  "primaryId s' = primaryId s \<Longrightarrow> selection s' = selection s \<Longrightarrow> primaryOk s' = primaryOk s"
  by (simp add: primaryOk_def)

lemma sel_notify [simp]: "selection (notify s) = selection s" "primaryId (notify s) = primaryId s"
  by (simp_all add: notify_def)

lemma sel_rebuildIndex [simp]:
  "selection (rebuildIndex vp tol s) = selection s" "primaryId (rebuildIndex vp tol s) = primaryId s"
  by (simp_all add: rebuildIndex_def)

lemma sel_pushHistory [simp]:
  "selection (pushHistory lbl bef aft s) = selection s"
  "primaryId (pushHistory lbl bef aft s) = primaryId s"
  by (simp_all add: pushHistory_def now_def)

lemma sel_topMostHit [simp]:
  "selection (snd (topMostHit p vp tol s)) = selection s"
  "primaryId (snd (topMostHit p vp tol s)) = primaryId s"
  by (simp_all add: topMostHit_def Let_def now_def split_def)

lemma sel_startCreating [simp]:
  "selection (startCreating input tdef s) = selection s"
  "primaryId (startCreating input tdef s) = primaryId s"
  by (simp_all add: startCreating_def Let_def now_def)

lemma sel_startDragSelection [simp]:
  "selection (startDragSelection input s) = selection s"
  "primaryId (startDragSelection input s) = primaryId s"
  by (simp_all add: startDragSelection_def Let_def)

lemma sel_moveStep [simp]:
  "selection (moveStep delta i s) = selection s" "primaryId (moveStep delta i s) = primaryId s"
  by (simp_all add: moveStep_def Let_def now_def split: option.splits)

lemma sel_fold_moveStep [simp]:
  "selection (fold (moveStep delta) is s) = selection s"
  "primaryId (fold (moveStep delta) is s) = primaryId s"
  by (induction "is" arbitrary: s) simp_all

lemma sel_dragStep [simp]:
  "selection (dragStep delta e s) = selection s" "primaryId (dragStep delta e s) = primaryId s"
  by (simp_all add: dragStep_def Let_def now_def split: option.splits)

lemma sel_fold_dragStep [simp]:
  "selection (fold (dragStep delta) es s) = selection s"
  "primaryId (fold (dragStep delta) es s) = primaryId s"
  by (induction es arbitrary: s) simp_all

lemma sel_flagStep [simp]:
  "selection (flagStep f i s) = selection s" "primaryId (flagStep f i s) = primaryId s"
  by (simp_all add: flagStep_def Let_def now_def split: option.splits)

lemma sel_fold_flagStep [simp]:
  "selection (fold (flagStep f) is s) = selection s"
  "primaryId (fold (flagStep f) is s) = primaryId s"
  by (induction "is" arbitrary: s) simp_all

lemma sel_frontStep [simp]:
  "selection (snd (frontStep i acc)) = selection (snd acc)"
  "primaryId (snd (frontStep i acc)) = primaryId (snd acc)"
  by (simp_all add: frontStep_def Let_def now_def split: option.splits)

lemma sel_fold_frontStep [simp]:
  "selection (snd (fold frontStep is acc)) = selection (snd acc)"
  "primaryId (snd (fold frontStep is acc)) = primaryId (snd acc)"
  by (induction "is" arbitrary: acc) simp_all

lemma sel_backStep [simp]:
  "selection (snd (backStep i acc)) = selection (snd acc)"
  "primaryId (snd (backStep i acc)) = primaryId (snd acc)"
  by (simp_all add: backStep_def Let_def now_def split: option.splits)

lemma sel_fold_backStep [simp]:
  "selection (snd (fold backStep is acc)) = selection (snd acc)"
  "primaryId (snd (fold backStep is acc)) = primaryId (snd acc)"
  by (induction "is" arbitrary: acc) simp_all

lemma lastOrNull_in: "lastOrNull xs = Some x \<Longrightarrow> x \<in> set xs"
  by (auto simp: lastOrNull_def split: if_splits)

lemma lastOrNull_ok: "set xs \<subseteq> S \<Longrightarrow> lastOrNull xs \<in> {None, Some []} \<union> Some ` S"
  by (cases "xs = []") (auto simp: lastOrNull_def dest: last_in_set)

lemma activeSelectionIds_subset: "set (activeSelectionIds s) \<subseteq> set (selection s)"
  by (auto simp: activeSelectionIds_def)

lemma primaryOk_selectionSet:
  "is = [] \<or> drawings_has (drawings s) (last is) \<Longrightarrow> primaryOk (selectionSet is s)"
  by (auto simp: primaryOk_def selectionSet_def lastOrNull_def)

lemma primaryOk_addSelection: "primaryOk s \<Longrightarrow> primaryOk (addSelection is s)"
proof (induction "is" arbitrary: s)
  case Nil
  then show ?case by (simp add: addSelection_def)
next
  case (Cons i "is")
  have "primaryOk (if drawings_has (drawings s) i
                   then s \<lparr> selection := set_add i (selection s), primaryId := Some i \<rparr> else s)"
    using Cons.prems by (simp add: primaryOk_def set_add_def)
  from Cons.IH [OF this] show ?case by (simp add: addSelection_def)
qed

lemma primaryOk_removeSelection: "primaryOk s \<Longrightarrow> primaryOk (removeSelection i s)"
proof -
  assume ok: "primaryOk s"
  define s1 where "s1 = s \<lparr> selection := set_delete i (selection s) \<rparr>"
  show ?thesis
  proof (cases "primaryId s = Some i")
    case True
    then have r: "removeSelection i s = s1 \<lparr> primaryId := lastOrNull (activeSelectionIds s1) \<rparr>"
      by (simp add: removeSelection_def Let_def s1_def)
    show ?thesis
      unfolding r using lastOrNull_ok [OF activeSelectionIds_subset [of s1]]
      by (simp add: primaryOk_def)
  next
    case False
    then have r: "removeSelection i s = s1"
      by (simp add: removeSelection_def Let_def s1_def)
    show ?thesis
      unfolding r using ok False
      by (auto simp: primaryOk_def s1_def set_delete_def split: option.splits)
  qed
qed

lemma primaryOk_applyDrawings: "primaryOk s \<Longrightarrow> primaryOk (applyDrawings es s)"
proof -
  assume ok: "primaryOk s"
  define ds where "ds = fold drawings_set (normalizeZ (cloneEntities es)) []"
  define s2 where "s2 = s \<lparr> drawings := ds, selection := filter (drawings_has ds) (selection s) \<rparr>"
  have a: "applyDrawings es s =
             rebuildIndex (lastViewport s) (hitTolerancePxMouse (opts s))
               (if truthyId (primaryId s) \<and> \<not> drawings_has ds (the (primaryId s))
                then s2 \<lparr> primaryId := lastOrNull (activeSelectionIds s2) \<rparr> else s2)"
    by (simp add: applyDrawings_def Let_def ds_def s2_def rebuildIndex_def)
  show ?thesis
  proof (cases "truthyId (primaryId s) \<and> \<not> drawings_has ds (the (primaryId s))")
    case True
    then show ?thesis
      unfolding a using lastOrNull_ok [OF activeSelectionIds_subset [of s2]]
      by (simp add: primaryOk_def)
  next
    case False
    then show ?thesis
      unfolding a using ok
      by (auto simp: primaryOk_def s2_def truthyId_def split: option.splits)
  qed
qed

lemma primaryOk_applyMarqueeSelection: "primaryOk (applyMarqueeSelection st cur base s)"
  using lastOrNull_ok [OF subset_refl]
  by (simp add: primaryOk_def applyMarqueeSelection_def Let_def)

lemma primaryOk_commitNewEntity:
  "primaryOk s \<Longrightarrow> primaryOk (commitNewEntity tdef pts bef s)"
proof (cases "real (length pts) < minPoints tdef")
  case True
  then show "primaryOk s \<Longrightarrow> ?thesis" by (simp add: commitNewEntity_def)
next
  case False
  define normalized where "normalized =
     (case normalize tdef of None \<Rightarrow> fst (newEntity tdef pts s)
      | Some hook \<Rightarrow> hook (fst (newEntity tdef pts s)))"
  define s2 where "s2 = (snd (newEntity tdef pts s))
                          \<lparr> drawings := drawings_set normalized (drawings (snd (newEntity tdef pts s))) \<rparr>"
  have "drawings_has (drawings s2) (id_ent normalized)"
    using ids_drawings_set [of normalized] by (simp add: s2_def drawings_has_def)
  then have "primaryOk (selectionSet [id_ent normalized] s2)"
    by (intro primaryOk_selectionSet) simp
  moreover have "primaryOk (commitNewEntity tdef pts bef s) = primaryOk (selectionSet [id_ent normalized] s2)"
    using False
    by (intro primaryOk_cong)
      (simp_all add: commitNewEntity_def Let_def split_def normalized_def s2_def)
  ultimately show ?thesis by simp
qed

lemma primaryOk_interaction [simp]: "primaryOk (s \<lparr> interaction := i \<rparr>) = primaryOk s"
  by (simp add: primaryOk_def)

lemma primaryOk_notify [simp]: "primaryOk (notify s) = primaryOk s"
  by (simp add: primaryOk_def)

lemma primaryOk_rebuildIndex [simp]: "primaryOk (rebuildIndex vp tol s) = primaryOk s"
  by (simp add: primaryOk_def)

lemma primaryOk_pushHistory [simp]: "primaryOk (pushHistory lbl bef aft s) = primaryOk s"
  by (simp add: primaryOk_def)

lemma primaryOk_finishCreating: "primaryOk s \<Longrightarrow> primaryOk (finishCreating input s)"
proof -
  assume ok: "primaryOk s"
  have now_ok: "primaryOk (snd (now s))" using ok by (simp add: primaryOk_def now_def)
  show ?thesis
    using ok now_ok primaryOk_commitNewEntity [OF now_ok]
    by (simp add: finishCreating_def Let_def split_def split: internalInteraction.splits)
qed

lemma firstHit_id:
  "firstHit ds skip p vp tol = Some (i, h) \<Longrightarrow> i \<in> set (map id_ent ds)"
  by (induction ds) (auto split: if_splits option.splits)

lemma topMostHit_id:
  "fst (topMostHit p vp tol s) = Some (i, h) \<Longrightarrow> drawings_has (drawings s) i"
  by (auto simp: topMostHit_def Let_def split_def now_def drawings_has_def sortedDrawings_def
      dest!: firstHit_id split: option.splits)

lemma duplicateStep_ids:
  assumes "set (snd acc) \<subseteq> set (map id_ent (drawings (fst acc)))"
  shows "set (snd (duplicateStep delta i acc))
         \<subseteq> set (map id_ent (drawings (fst (duplicateStep delta i acc))))"
proof (cases "drawings_get (drawings (fst acc)) i")
  case None
  with assms show ?thesis by (simp add: duplicateStep_def Let_def)
next
  case (Some d)
  define copy where "copy = (cloneEntity d)
     \<lparr> id_ent := fst (nanoid (fst acc)),
       points := map (\<lambda>p. translatePoint p delta) (points d),
       createdAt := fst (now (snd (nanoid (fst acc)))),
       updatedAt := fst (now (snd (now (snd (nanoid (fst acc)))))),
       zIndex := highestZ (snd (now (snd (now (snd (nanoid (fst acc))))))) + 1 \<rparr>"
  have r: "duplicateStep delta i acc =
             ((snd (now (snd (now (snd (nanoid (fst acc)))))))
                \<lparr> drawings := drawings_set copy (drawings (fst acc)) \<rparr>,
              snd acc @ [id_ent copy])"
    using Some by (simp add: duplicateStep_def Let_def split_def copy_def now_def nanoid_def)
  show ?thesis
    unfolding r using assms ids_drawings_set [of copy "drawings (fst acc)"]
    by (simp only: fst_conv snd_conv engineState.simps set_append list.set) auto
qed

lemma fold_duplicateStep_ids:
  "set (snd acc) \<subseteq> set (map id_ent (drawings (fst acc))) \<Longrightarrow>
   set (snd (fold (duplicateStep delta) is acc))
     \<subseteq> set (map id_ent (drawings (fst (fold (duplicateStep delta) is acc))))"
proof (induction "is" arbitrary: acc)
  case Nil
  then show ?case by simp
next
  case (Cons a "is")
  from Cons.IH [OF duplicateStep_ids [OF Cons.prems]] show ?case by simp
qed

lemma primaryOk_after_duplicates:
  "primaryOk (selectionSet (snd (fold (duplicateStep delta) is (s, [])))
                (fst (fold (duplicateStep delta) is (s, []))))"
proof -
  let ?r = "fold (duplicateStep delta) is (s, [])"
  have sub: "set (snd ?r) \<subseteq> set (map id_ent (drawings (fst ?r)))"
    by (rule fold_duplicateStep_ids) simp
  show ?thesis
  proof (cases "snd ?r = []")
    case True
    then show ?thesis by (intro primaryOk_selectionSet) simp
  next
    case False
    then have "last (snd ?r) \<in> set (snd ?r)" by simp
    with sub have "drawings_has (drawings (fst ?r)) (last (snd ?r))"
      by (auto simp: drawings_has_def)
    then show ?thesis by (intro primaryOk_selectionSet) simp
  qed
qed

lemma primaryOk_altDragDuplicate: "primaryOk (altDragDuplicate input s)"
  using primaryOk_after_duplicates
  by (simp add: altDragDuplicate_def Let_def split_def)

lemma primaryOk_pointerDown: "primaryOk s \<Longrightarrow> primaryOk (pointerDown input s)"
proof -
  assume ok: "primaryOk s"
  define s1 where "s1 = rebuildIndex (viewport input) (hitTolerance input (s \<lparr> lastViewport := viewport input \<rparr>))
                          (s \<lparr> lastViewport := viewport input \<rparr>)"
  have ok1: "primaryOk s1" using ok by (simp add: s1_def primaryOk_def)
  define r where "r = topMostHit (toPoint input s1) (viewport input)
                        (hitTolerance input (s \<lparr> lastViewport := viewport input \<rparr>)) s1"
  have ok2: "primaryOk (snd r)" using ok1 by (simp add: r_def primaryOk_def)
  have d2: "drawings (snd r) = drawings s1" by (simp add: r_def)
  show ?thesis
  proof (cases "activeTool s1 = ''cursor''")
    case False
    then show ?thesis
      using ok1
      by (simp add: pointerDown_def Let_def s1_def [symmetric] primaryOk_def
          split: option.splits)
  next
    case True
    show ?thesis
    proof (cases "fst r")
      case None
      have "primaryOk (selectionSet [] (snd r))" by (intro primaryOk_selectionSet) simp
      with ok2 None True show ?thesis
        by (simp add: pointerDown_def Let_def s1_def [symmetric] r_def [symmetric] split_def
            primaryOk_def)
    next
      case (Some hit)
      obtain hitId h where hit: "hit = (hitId, h)" by (cases hit)
      from Some hit topMostHit_id [of "toPoint input s1" "viewport input" _ s1 hitId h]
      have "drawings_has (drawings (snd r)) hitId" by (simp add: r_def)
      then have sset: "primaryOk (selectionSet [hitId] (snd r))"
        by (intro primaryOk_selectionSet) simp
      have drag: "primaryOk (startDragSelection input x) = primaryOk x" for x
        by (rule primaryOk_cong) simp_all
      show ?thesis
        using ok2 sset primaryOk_removeSelection [OF ok2] primaryOk_addSelection [OF ok2, of "[hitId]"]
          True Some hit
        by (simp add: pointerDown_def Let_def s1_def [symmetric] r_def [symmetric] split_def
            drag primaryOk_altDragDuplicate)
    qed
  qed
qed

lemma primaryOk_pointerMove: "primaryOk s \<Longrightarrow> primaryOk (pointerMove input s)"
proof -
  assume ok: "primaryOk s"
  show ?thesis
  proof (cases "interaction s")
    case Idle
    with ok show ?thesis by (simp add: pointerMove_def Let_def primaryOk_def)
  next
    case (Creating c)
    with ok show ?thesis
      by (simp add: pointerMove_def Let_def split_def now_def primaryOk_def)
  next
    case (DraggingSelection d)
    have "primaryOk (pointerMove input s) = primaryOk s"
      using DraggingSelection by (intro primaryOk_cong) (simp_all add: pointerMove_def Let_def)
    with ok show ?thesis by simp
  next
    case (Marquee m)
    then show ?thesis
      by (simp add: pointerMove_def Let_def primaryOk_applyMarqueeSelection)
  qed
qed

lemma primaryOk_pointerUp: "primaryOk s \<Longrightarrow> primaryOk (pointerUp input s)"
proof -
  assume ok: "primaryOk s"
  have ok0: "primaryOk (s \<lparr> lastViewport := viewport input \<rparr>)" using ok by (simp add: primaryOk_def)
  show ?thesis
    using ok0 primaryOk_finishCreating [OF ok0]
    by (simp add: pointerUp_def Let_def split: internalInteraction.splits)
qed

lemma primaryOk_history [simp]: "primaryOk (s \<lparr> history := h \<rparr>) = primaryOk s"
  by (simp add: primaryOk_def)

lemma primaryOk_undo: "primaryOk s \<Longrightarrow> primaryOk (undo s)"
  by (simp add: undo_def history_undo_def Let_def primaryOk_applyDrawings)

lemma primaryOk_redo: "primaryOk s \<Longrightarrow> primaryOk (redo s)"
  by (simp add: redo_def history_redo_def Let_def primaryOk_applyDrawings)

lemma primaryOk_deleteSelection: "primaryOk s \<Longrightarrow> primaryOk (deleteSelection s)"
  by (simp add: deleteSelection_def Let_def primaryOk_selectionSet)

lemma primaryOk_selectAll: "primaryOk (selectAll s)"
proof -
  have "map id_ent (sortedDrawings s) = [] \<or> drawings_has (drawings s) (last (map id_ent (sortedDrawings s)))"
  proof (cases "map id_ent (sortedDrawings s) = []")
    case False
    then have "last (map id_ent (sortedDrawings s)) \<in> set (map id_ent (sortedDrawings s))"
      by (rule last_in_set)
    then show ?thesis by (simp add: drawings_has_def sortedDrawings_def)
  qed simp
  then show ?thesis by (simp add: selectAll_def primaryOk_selectionSet)
qed

lemma primaryOk_keyboardMoveSelection:
  "primaryOk s \<Longrightarrow> primaryOk (keyboardMoveSelection dx dy s)"
proof -
  assume ok: "primaryOk s"
  have "primaryOk (keyboardMoveSelection dx dy s) = primaryOk s"
    by (rule primaryOk_cong) (simp_all add: keyboardMoveSelection_def Let_def)
  with ok show ?thesis by simp
qed

lemma primaryOk_duplicateSelection: "primaryOk s \<Longrightarrow> primaryOk (duplicateSelection s)"
  using primaryOk_after_duplicates
  by (simp add: duplicateSelection_def Let_def split_def)

lemma primaryOk_keyDown: "primaryOk s \<Longrightarrow> primaryOk (keyDown input s)"
  by (simp add: keyDown_def Let_def primaryOk_undo primaryOk_redo primaryOk_deleteSelection
      primaryOk_selectAll primaryOk_keyboardMoveSelection primaryOk_duplicateSelection)

lemma primaryOk_reorder:
  "primaryOk s \<Longrightarrow> primaryOk (bringToFront is s)" "primaryOk s \<Longrightarrow> primaryOk (sendToBack is s)"
proof -
  assume ok: "primaryOk s"
  have f: "primaryOk (snd (fold frontStep is (highestZ s, s)))"
    and b: "primaryOk (snd (fold backStep is (- real (length is), s)))"
    using ok by (simp_all add: primaryOk_def)
  show "primaryOk (bringToFront is s)"
    using ok primaryOk_applyDrawings [OF f] by (simp add: bringToFront_def Let_def)
  show "primaryOk (sendToBack is s)"
    using ok primaryOk_applyDrawings [OF b] by (simp add: sendToBack_def Let_def)
qed

lemma primaryOk_flags:
  "primaryOk s \<Longrightarrow> primaryOk (setVisibility is v s)" "primaryOk s \<Longrightarrow> primaryOk (setLocked is l s)"
proof -
  assume ok: "primaryOk s"
  have "primaryOk (setVisibility is v s) = primaryOk s"
    by (rule primaryOk_cong) (simp_all add: setVisibility_def Let_def)
  with ok show "primaryOk (setVisibility is v s)" by simp
  have "primaryOk (setLocked is l s) = primaryOk s"
    by (rule primaryOk_cong) (simp_all add: setLocked_def Let_def)
  with ok show "primaryOk (setLocked is l s)" by simp
qed

lemma primaryOk_perform:
  assumes ok: "primaryOk s"
  shows "primaryOk (perform op s)"
proof (cases op)
  case (OpSetTool t)
  with ok show ?thesis by (simp add: setTool_def primaryOk_def)
next
  case (OpSetOptions p)
  with ok show ?thesis by (simp add: setOptions_def primaryOk_def)
next
  case (OpRegisterTool d)
  with ok show ?thesis by (simp add: registerTool_def primaryOk_def)
next
  case (OpImportSnapshot snapshot)
  with ok show ?thesis by (simp add: importSnapshot_def Let_def primaryOk_selectionSet)
next
  case (OpReportFrame frameMs)
  with ok show ?thesis by (simp add: reportFrame_def Let_def primaryOk_def)
next
  case OpClearSelection
  then show ?thesis by (simp add: clearSelection_def primaryOk_selectionSet)
qed (use ok in \<open>simp_all add: primaryOk_pointerDown primaryOk_pointerMove primaryOk_pointerUp
      primaryOk_keyDown keyUp_def primaryOk_undo primaryOk_redo primaryOk_deleteSelection
      primaryOk_selectAll primaryOk_flags primaryOk_reorder primaryOk_duplicateSelection\<close>)

lemma reachable_primaryOk: "reachable s \<Longrightarrow> primaryOk s"
proof (induction rule: reachable.induct)
  case (created options clk gen)
  show ?case by (simp add: createDrawingEngine_def Let_def primaryOk_def rebuildIndex_def)
next
  case (performed s op)
  from performed.IH show ?case by (rule primaryOk_perform)
qed


section \<open>Undo, redo\<close>

lemma sameButZ_refl [simp]: "sameButZ xs xs"
  by (simp add: sameButZ_def)

lemma sameButZ_sym: "sameButZ xs ys \<Longrightarrow> sameButZ ys xs"
  by (simp add: sameButZ_def)

lemma sameButZ_trans: "sameButZ xs ys \<Longrightarrow> sameButZ ys zs \<Longrightarrow> sameButZ xs zs"
  by (simp add: sameButZ_def)

lemma sameButZ_ids: "sameButZ xs ys \<Longrightarrow> map id_ent xs = map id_ent ys"
proof -
  assume "sameButZ xs ys"
  then have "map (id_ent \<circ> (\<lambda>d. d \<lparr> zIndex := 0 \<rparr>)) xs = map (id_ent \<circ> (\<lambda>d. d \<lparr> zIndex := 0 \<rparr>)) ys"
    unfolding sameButZ_def map_map [symmetric] by simp
  then show ?thesis by (simp add: comp_def)
qed

lemma sameButZ_length: "sameButZ xs ys \<Longrightarrow> length xs = length ys"
  by (metis sameButZ_ids length_map)

lemma agreesWithLive_sorted [simp]: "agreesWithLive (sortedDrawings s) s"
  by (simp add: agreesWithLive_def sortedDrawings_def sort_key_idem)

lemma agreesWithLive_applied:
  "distinct (map id_ent es) \<Longrightarrow> agreesWithLive es (applyDrawings es s)"
  using sameButZ_normalizeZ [of es]
  by (simp add: agreesWithLive_def sortedDrawings_applyDrawings sameButZ_sym)

lemma restore_agreeing:
  assumes "agreesWithLive es s" and "distinct (map id_ent (drawings s))"
  shows "distinct (map id_ent es)"
    and "sameButZ (normalizeZ es) (sortedDrawings s)"
    and "map zIndex (normalizeZ es) = map real [0 ..< length (drawings s)]"
proof -
  from assms(1) have s: "sameButZ (sort_key zIndex es) (sortedDrawings s)"
    by (simp add: agreesWithLive_def)
  from sameButZ_ids [OF s] assms(2) have "distinct (map id_ent (sort_key zIndex es))" by simp
  then show "distinct (map id_ent es)" by (simp add: distinct_ids_sort)
  from sameButZ_trans [OF sameButZ_normalizeZ s]
  show "sameButZ (normalizeZ es) (sortedDrawings s)" .
  from sameButZ_length [OF s] have "length es = length (drawings s)"
    by (simp add: sortedDrawings_def)
  then show "map zIndex (normalizeZ es) = map real [0 ..< length (drawings s)]"
    by (simp add: zIndex_normalizeZ)
qed

text \<open>
  Claim C1, amended. In a state whose entity map has no duplicate ids: if the undo stack
  is not empty and the \<open>after\<close> list of its top frame, in paint order, is the live entity
  list up to zIndex (which is what a create, move or delete leaves behind when its
  history push was not skipped), then \<^verbatim>\<open>undo\<close> followed by \<^verbatim>\<open>redo\<close> brings back
  the same entities in the same paint order, equal in every field except zIndex, with
  the zIndex values renumbered \<open>0, \<dots>, n - 1\<close>, and both history stacks as they were. The
  same holds for \<^verbatim>\<open>redo\<close> followed by \<^verbatim>\<open>undo\<close> when the redo stack is not empty
  and the \<open>before\<close> list of its top frame agrees with the live entity list, as it does
  right after an \<^verbatim>\<open>undo\<close>.
\<close>

theorem undo_redo_restores_recorded_entities:
  assumes "distinct (map id_ent (drawings s))"
  shows "(undoStack (history s) \<noteq> [] \<and> agreesWithLive (after (last (undoStack (history s)))) s
            \<longrightarrow> sameButZ (sortedDrawings (redo (undo s))) (sortedDrawings s)
                \<and> map zIndex (sortedDrawings (redo (undo s))) = map real [0 ..< length (drawings s)]
                \<and> history (redo (undo s)) = history s)
       \<and> (redoStack (history s) \<noteq> [] \<and> agreesWithLive (before (last (redoStack (history s)))) s
            \<longrightarrow> sameButZ (sortedDrawings (undo (redo s))) (sortedDrawings s)
                \<and> map zIndex (sortedDrawings (undo (redo s))) = map real [0 ..< length (drawings s)]
                \<and> history (undo (redo s)) = history s)"
proof (intro conjI impI)
  assume a: "undoStack (history s) \<noteq> [] \<and> agreesWithLive (after (last (undoStack (history s)))) s"
  note r = restore_agreeing [OF conjunct2 [OF a] assms]
  from a r(1) undo_then_redo [of s] have
    "sortedDrawings (redo (undo s)) = normalizeZ (after (last (undoStack (history s))))"
    "history (redo (undo s)) = history s"
    by simp_all
  with r show "sameButZ (sortedDrawings (redo (undo s))) (sortedDrawings s)"
    "map zIndex (sortedDrawings (redo (undo s))) = map real [0 ..< length (drawings s)]"
    "history (redo (undo s)) = history s" by simp_all
next
  assume a: "redoStack (history s) \<noteq> [] \<and> agreesWithLive (before (last (redoStack (history s)))) s"
  note r = restore_agreeing [OF conjunct2 [OF a] assms]
  from a r(1) redo_then_undo [of s] have
    "sortedDrawings (undo (redo s)) = normalizeZ (before (last (redoStack (history s))))"
    "history (undo (redo s)) = history s"
    by simp_all
  with r show "sameButZ (sortedDrawings (undo (redo s))) (sortedDrawings s)"
    "map zIndex (sortedDrawings (undo (redo s))) = map real [0 ..< length (drawings s)]"
    "history (undo (redo s)) = history s" by simp_all
qed

text \<open>
  The claim as stated fails when a push is skipped: the line \<open>a\<close> is created and then
  nudged by the arrow key within the same millisecond, so the nudged entity has the id,
  the \<^verbatim>\<open>updatedAt\<close> and the zIndex it had before, and the move is not recorded.
  \<^verbatim>\<open>undo\<close> and \<^verbatim>\<open>redo\<close> then bring back the line at its old place.
\<close>

theorem undo_redo_counterexample:
  "undoStack (history nudgedLine) \<noteq> []
   \<and> map points (sortedDrawings nudgedLine) = [[\<lparr> logical = 11, price = 100 \<rparr>]]
   \<and> map points (sortedDrawings (redo (undo nudgedLine))) = [[\<lparr> logical = 10, price = 100 \<rparr>]]"
  unfolding nudgedLine_def oneLine_def by (simp add: session_eval cong: let_weak_cong)

lemma twoLines_facts:
  "map id_ent (drawings twoLines) = [''a'', ''b'']"
  "undoStack (history twoLines) \<noteq> []"
  "after (last (undoStack (history twoLines))) = sortedDrawings twoLines"
  "redoStack (history (undo twoLines)) \<noteq> []"
  "before (last (redoStack (history (undo twoLines)))) = sortedDrawings (undo twoLines)"
  "map id_ent (drawings (undo twoLines)) = [''a'']"
  unfolding twoLines_def oneLine_def by (simp_all add: session_eval cong: let_weak_cong)

theorem undo_redo_restores_recorded_entities_witness:
  "distinct (map id_ent (drawings twoLines))
   \<and> undoStack (history twoLines) \<noteq> []
   \<and> agreesWithLive (after (last (undoStack (history twoLines)))) twoLines
   \<and> sameButZ (sortedDrawings (redo (undo twoLines))) (sortedDrawings twoLines)
   \<and> map zIndex (sortedDrawings (redo (undo twoLines))) = [0, 1]
   \<and> history (redo (undo twoLines)) = history twoLines
   \<and> distinct (map id_ent (drawings (undo twoLines)))
   \<and> redoStack (history (undo twoLines)) \<noteq> []
   \<and> agreesWithLive (before (last (redoStack (history (undo twoLines))))) (undo twoLines)
   \<and> sameButZ (sortedDrawings (undo (redo (undo twoLines)))) (sortedDrawings (undo twoLines))
   \<and> history (undo (redo (undo twoLines))) = history (undo twoLines)"
proof -
  have d2: "distinct (map id_ent (drawings twoLines))"
    and d1: "distinct (map id_ent (drawings (undo twoLines)))"
    by (simp_all add: twoLines_facts)
  have l2: "length (drawings twoLines) = 2"
    using twoLines_facts(1) by (metis length_map length_Cons list.size(3) numeral_2_eq_2)
  have upt: "map real [0 ..< 2] = [0, 1]" by (simp add: upt_rec)
  have a2: "agreesWithLive (after (last (undoStack (history twoLines)))) twoLines"
    and a1: "agreesWithLive (before (last (redoStack (history (undo twoLines))))) (undo twoLines)"
    by (simp_all add: twoLines_facts)
  show ?thesis
    using undo_redo_restores_recorded_entities [OF d2] undo_redo_restores_recorded_entities [OF d1]
      twoLines_facts(2,4) d1 d2 l2 upt a1 a2
    by simp
qed

subsection \<open>When the newest frame holds the live entities\<close>

lemma last_history_push:
  assumes "1 \<le> limit h"
  shows "undoStack (history_push f h) \<noteq> [] \<and> last (undoStack (history_push f h)) = f"
proof (cases "real (length (undoStack h @ [f])) > limit h")
  case True
  with assms have "undoStack h \<noteq> []" by (cases "undoStack h") auto
  then obtain u us where u: "undoStack h = u # us" by (cases "undoStack h") auto
  with True show ?thesis by (simp add: history_push_def Let_def)
next
  case False
  then show ?thesis by (simp add: history_push_def Let_def)
qed

lemma pushHistory_records:
  assumes "1 \<le> limit (history s)"
  shows "history (pushHistory lbl bef (sortedDrawings s) s) = history s
         \<or> recorded (pushHistory lbl bef (sortedDrawings s) s)"
proof (cases "cheapEqual bef (sortedDrawings s)")
  case True
  then show ?thesis by (simp add: pushHistory_def styleChanged_iff)
next
  case False
  let ?f = "\<lparr> label = lbl, before = bef, after = sortedDrawings s,
               at_time = clock s (clockCalls s) \<rparr>"
  from False have h: "history (pushHistory lbl bef (sortedDrawings s) s) = history_push ?f (history s)"
    by (simp add: pushHistory_def styleChanged_iff now_def)
  have "agreesWithLive (sortedDrawings s) (pushHistory lbl bef (sortedDrawings s) s)"
    by (simp add: agreesWithLive_def) (simp add: sortedDrawings_def sort_key_idem)
  with last_history_push [OF assms, of ?f] have "recorded (pushHistory lbl bef (sortedDrawings s) s)"
    unfolding recorded_def h by simp
  then show ?thesis ..
qed

lemma recorded_cong:
  "history s' = history s \<Longrightarrow> drawings s' = drawings s \<Longrightarrow> recorded s' = recorded s"
  by (simp add: recorded_def agreesWithLive_def sortedDrawings_def)

lemma history_rebuildIndex [simp]: "history (rebuildIndex vp tol s) = history s"
  by (simp add: rebuildIndex_def)

lemma history_selectionSet [simp]: "history (selectionSet is s) = history s"
  by (simp add: selectionSet_def)

lemma limit_pushHistory [simp]: "limit (history (pushHistory lbl bef aft s)) = limit (history s)"
  by (simp add: pushHistory_def now_def history_push_def Let_def)

lemma history_moveStep [simp]: "history (moveStep delta i s) = history s"
  by (simp add: moveStep_def Let_def now_def split: option.splits)

lemma history_fold_moveStep [simp]: "history (fold (moveStep delta) is s) = history s"
  by (induction "is" arbitrary: s) simp_all

lemma history_newEntity [simp]: "history (snd (newEntity tdef pts s)) = history s"
  by (simp add: newEntity_def Let_def now_def nanoid_def split_def)

text \<open>
  Each of the three kinds of edit ends in \<open>pushHistory\<close> with the live entity list: the
  nudge by an arrow key, the deletion of the selection, and the commit of a new entity.
  Whenever the history store keeps at least one frame, the edit either leaves the history
  as it was (the push was skipped) or leaves a state whose newest frame holds the live
  entities.
\<close>

lemma keyboardMoveSelection_records:
  assumes "1 \<le> limit (history s)"
  shows "history (keyboardMoveSelection dx dy s) = history s
         \<or> recorded (keyboardMoveSelection dx dy s)"
proof (cases "activeSelectionIds s = []")
  case True
  then show ?thesis by (simp add: keyboardMoveSelection_def)
next
  case False
  define delta where "delta = \<lparr> logical = dx * logicalPerPixel (lastViewport s),
                               price = dy * pricePerPixel (lastViewport s) \<rparr>"
  define s1 where "s1 = fold (moveStep delta) (activeSelectionIds s) s"
  define s2 where "s2 = pushHistory ''move-selection:keyboard'' (sortedDrawings s) (sortedDrawings s1) s1"
  have k: "keyboardMoveSelection dx dy s
           = notify (rebuildIndex (lastViewport s2) (hitTolerancePxMouse (opts s2)) s2)"
    using False by (simp add: keyboardMoveSelection_def Let_def delta_def s1_def s2_def)
  have h1: "history s1 = history s" by (simp add: s1_def)
  with assms have "1 \<le> limit (history s1)" by simp
  from pushHistory_records [OF this, of "''move-selection:keyboard''" "sortedDrawings s"]
  have "history s2 = history s \<or> recorded s2" by (simp add: s2_def h1)
  moreover have "recorded (keyboardMoveSelection dx dy s) = recorded s2"
    unfolding k by (rule recorded_cong) simp_all
  moreover have "history (keyboardMoveSelection dx dy s) = history s2"
    unfolding k by simp
  ultimately show ?thesis by simp
qed

lemma deleteSelection_records:
  assumes "1 \<le> limit (history s)"
  shows "history (deleteSelection s) = history s \<or> recorded (deleteSelection s)"
proof (cases "activeSelectionIds s = []")
  case True
  then show ?thesis by (simp add: deleteSelection_def)
next
  case False
  define s2 where "s2 = (selectionSet [] (s \<lparr> drawings := fold drawings_delete (activeSelectionIds s) (drawings s) \<rparr>))
                          \<lparr> interaction := Idle \<rparr>"
  define s3 where "s3 = pushHistory ''delete-selection'' (sortedDrawings s) (sortedDrawings s2) s2"
  have k: "deleteSelection s = notify (rebuildIndex (lastViewport s3) (hitTolerancePxMouse (opts s3)) s3)"
    using False by (simp add: deleteSelection_def Let_def s2_def s3_def)
  have h2: "history s2 = history s" by (simp add: s2_def)
  with assms have "1 \<le> limit (history s2)" by simp
  from pushHistory_records [OF this, of "''delete-selection''" "sortedDrawings s"]
  have "history s3 = history s \<or> recorded s3" by (simp add: s3_def h2)
  moreover have "recorded (deleteSelection s) = recorded s3"
    unfolding k by (rule recorded_cong) simp_all
  moreover have "history (deleteSelection s) = history s3"
    unfolding k by simp
  ultimately show ?thesis by simp
qed

lemma commitNewEntity_records:
  assumes "1 \<le> limit (history s)"
  shows "history (commitNewEntity tdef pts bef s) = history s
         \<or> recorded (commitNewEntity tdef pts bef s)"
proof (cases "real (length pts) < minPoints tdef")
  case True
  then show ?thesis by (simp add: commitNewEntity_def)
next
  case False
  define entity where "entity = fst (newEntity tdef pts s)"
  define s1 where "s1 = snd (newEntity tdef pts s)"
  define normalized where
    "normalized = (case normalize tdef of None \<Rightarrow> entity | Some hook \<Rightarrow> hook entity)"
  define s3 where "s3 = selectionSet [id_ent normalized]
                          (s1 \<lparr> drawings := drawings_set normalized (drawings s1) \<rparr>)"
  define s4 where "s4 = pushHistory (''create:'' @ id_tool tdef) bef (sortedDrawings s3) s3"
  have k: "commitNewEntity tdef pts bef s
           = notify (rebuildIndex (lastViewport s4) (hitTolerancePxMouse (opts s4)) s4)"
    using False
    by (simp only: commitNewEntity_def Let_def split_def entity_def s1_def normalized_def s3_def
        s4_def if_False cloneEntities_ident)
  have h3: "history s3 = history s" by (simp add: s3_def s1_def)
  with assms have "1 \<le> limit (history s3)" by simp
  from pushHistory_records [OF this, of "''create:'' @ id_tool tdef" bef]
  have "history s4 = history s \<or> recorded s4" by (simp add: s4_def h3)
  moreover have "recorded (commitNewEntity tdef pts bef s) = recorded s4"
    unfolding k by (rule recorded_cong) simp_all
  moreover have "history (commitNewEntity tdef pts bef s) = history s4"
    unfolding k by simp
  ultimately show ?thesis by simp
qed

text \<open>Right after an \<^verbatim>\<open>undo\<close>, the frame on top of the redo stack agrees with the live
  entities, and right after a \<^verbatim>\<open>redo\<close> the frame on top of the undo stack does.\<close>

lemma undo_leaves_agreeing_frame:
  assumes "undoStack (history s) \<noteq> []"
    and "distinct (map id_ent (before (last (undoStack (history s)))))"
  shows "redoStack (history (undo s)) \<noteq> []
         \<and> agreesWithLive (before (last (redoStack (history (undo s))))) (undo s)"
  using assms agreesWithLive_applied [of "before (last (undoStack (history s)))"]
  by (simp add: undo_def history_undo_def Let_def agreesWithLive_def)

lemma redo_leaves_recorded:
  assumes "redoStack (history s) \<noteq> []"
    and "distinct (map id_ent (after (last (redoStack (history s)))))"
  shows "recorded (redo s)"
  using assms agreesWithLive_applied [of "after (last (redoStack (history s)))"]
  by (simp add: redo_def history_redo_def Let_def agreesWithLive_def recorded_def)

section \<open>Sample sessions for creation, reordering and snapshots\<close>

text \<open>
  The claim as stated fails on a pending touch gesture: the trend-line tool is a
  non-continuous two-point tool, the stroke from (10, 100) to (14, 100) is four pixels
  long, more than the 2 pixels of the degenerate case, and yet the release within the
  hold time discards the interaction: no entity is added and nothing is pushed. It fails
  again on the stroke of the \<open>stamp\<close> tool, twenty pixels long and drawn by mouse: the
  entity is stored under the id \<open>a\<close> that the map already has, so the map keeps its one
  entry, and no frame is pushed.
\<close>

theorem two_point_creation_counterexample:
  "interaction touchMoved =
     Creating \<lparr> tool_c = mkTool ''trend_line'' 2 2 None, startedAt = 1000,
                pointerType_c = Some Touch, downScreen = (10, 100),
                points_c = [\<lparr> logical = 10, price = 100 \<rparr>], beforeSnapshot = [],
                pendingHold = True \<rparr>
   \<and> toPoint (touchAt 14 100) touchMoved = \<lparr> logical = 14, price = 100 \<rparr>
   \<and> \<not> equalPoints \<lparr> logical = 10, price = 100 \<rparr> \<lparr> logical = 14, price = 100 \<rparr>
         (viewport (touchAt 14 100)) 2
   \<and> drawings (pointerUp (touchAt 14 100) touchMoved) = []
   \<and> undoStack (history (pointerUp (touchAt 14 100) touchMoved)) = []
   \<and> interaction (pointerUp (touchAt 14 100) touchMoved) = Idle
   \<and> map id_ent (drawings stampDown) = [''a'']
   \<and> map tool (drawings stampDown) = [''horizontal_line'']
   \<and> (case interaction stampDown of
         Creating c \<Rightarrow> tool_c c = stampTool \<and> points_c c = [\<lparr> logical = 20, price = 100 \<rparr>]
                         \<and> \<not> pendingHold c
       | _ \<Rightarrow> False)
   \<and> toPoint (mouseAt 40 100) stampDown = \<lparr> logical = 40, price = 100 \<rparr>
   \<and> \<not> equalPoints \<lparr> logical = 20, price = 100 \<rparr> \<lparr> logical = 40, price = 100 \<rparr>
         (viewport (mouseAt 40 100)) 2
   \<and> map id_ent (drawings (pointerUp (mouseAt 40 100) stampDown)) = [''a'']
   \<and> map tool (drawings (pointerUp (mouseAt 40 100) stampDown)) = [''stamp'']
   \<and> history (pointerUp (mouseAt 40 100) stampDown) = history stampDown
   \<and> interaction (pointerUp (mouseAt 40 100) stampDown) = Idle"
proof -
  have touch:
    "interaction touchMoved =
       Creating \<lparr> tool_c = mkTool ''trend_line'' 2 2 None, startedAt = 1000,
                  pointerType_c = Some Touch, downScreen = (10, 100),
                  points_c = [\<lparr> logical = 10, price = 100 \<rparr>], beforeSnapshot = [],
                  pendingHold = True \<rparr>
     \<and> toPoint (touchAt 14 100) touchMoved = \<lparr> logical = 14, price = 100 \<rparr>
     \<and> \<not> equalPoints \<lparr> logical = 10, price = 100 \<rparr> \<lparr> logical = 14, price = 100 \<rparr>
           (viewport (touchAt 14 100)) 2
     \<and> drawings (pointerUp (touchAt 14 100) touchMoved) = []
     \<and> undoStack (history (pointerUp (touchAt 14 100) touchMoved)) = []
     \<and> interaction (pointerUp (touchAt 14 100) touchMoved) = Idle"
    unfolding touchMoved_def touchDown_def by (simp add: session_eval cong: let_weak_cong)
  have stamp:
    "map id_ent (drawings stampDown) = [''a'']
     \<and> map tool (drawings stampDown) = [''horizontal_line'']
     \<and> (case interaction stampDown of
           Creating c \<Rightarrow> tool_c c = stampTool \<and> points_c c = [\<lparr> logical = 20, price = 100 \<rparr>]
                           \<and> \<not> pendingHold c
         | _ \<Rightarrow> False)
     \<and> toPoint (mouseAt 40 100) stampDown = \<lparr> logical = 40, price = 100 \<rparr>
     \<and> \<not> equalPoints \<lparr> logical = 20, price = 100 \<rparr> \<lparr> logical = 40, price = 100 \<rparr>
           (viewport (mouseAt 40 100)) 2
     \<and> map id_ent (drawings (pointerUp (mouseAt 40 100) stampDown)) = [''a'']
     \<and> map tool (drawings (pointerUp (mouseAt 40 100) stampDown)) = [''stamp'']
     \<and> history (pointerUp (mouseAt 40 100) stampDown) = history stampDown
     \<and> interaction (pointerUp (mouseAt 40 100) stampDown) = Idle"
    unfolding stampDown_def oneLine_def
    by (simp add: session_eval registerTool_def stampTool_def cong: let_weak_cong)
  from touch stamp show ?thesis by simp
qed

lemma lineDrag_interaction:
  "interaction lineDrag =
     Creating \<lparr> tool_c = mkTool ''trend_line'' 2 2 None, startedAt = 1000,
                pointerType_c = Some Mouse, downScreen = (10, 100),
                points_c = [\<lparr> logical = 10, price = 100 \<rparr>, \<lparr> logical = 20, price = 90 \<rparr>],
                beforeSnapshot = [], pendingHold = False \<rparr>"
  unfolding lineDrag_def lineClick_def by (simp add: session_eval cong: let_weak_cong)

lemma lineClick_interaction:
  "interaction lineClick =
     Creating \<lparr> tool_c = mkTool ''trend_line'' 2 2 None, startedAt = 1000,
                pointerType_c = Some Mouse, downScreen = (10, 100),
                points_c = [\<lparr> logical = 10, price = 100 \<rparr>],
                beforeSnapshot = [], pendingHold = False \<rparr>"
  unfolding lineClick_def by (simp add: session_eval cong: let_weak_cong)

theorem two_point_creation_finishes_witness:
  "drawings (pointerUp (mouseAt 20 90) lineDrag) =
     [\<lparr> id_ent = ''a'', tool = ''trend_line'',
        points = [\<lparr> logical = 10, price = 100 \<rparr>, \<lparr> logical = 20, price = 90 \<rparr>],
        style = DEFAULT_STYLE, text_ent = None, visible = True, locked = False, groupId = None,
        zIndex = 0, metadata = None, createdAt = 1000, updatedAt = 1000 \<rparr>]
   \<and> selection (pointerUp (mouseAt 20 90) lineDrag) = [''a'']
   \<and> primaryId (pointerUp (mouseAt 20 90) lineDrag) = Some ''a''
   \<and> interaction (pointerUp (mouseAt 20 90) lineDrag) = Idle
   \<and> map label (undoStack (history (pointerUp (mouseAt 20 90) lineDrag))) = [''create:trend_line'']
   \<and> drawings (pointerUp (mouseAt 11 100) lineClick) = []
   \<and> history (pointerUp (mouseAt 11 100) lineClick) = history lineClick
   \<and> interaction (pointerUp (mouseAt 11 100) lineClick) = Idle"
proof -
  let ?cd = "\<lparr> tool_c = mkTool ''trend_line'' 2 2 None, startedAt = 1000,
                pointerType_c = Some Mouse, downScreen = (10, 100),
                points_c = [\<lparr> logical = 10, price = 100 \<rparr>, \<lparr> logical = 20, price = 90 \<rparr>],
                beforeSnapshot = [], pendingHold = False \<rparr>"
  let ?cc = "\<lparr> tool_c = mkTool ''trend_line'' 2 2 None, startedAt = 1000,
                pointerType_c = Some Mouse, downScreen = (10, 100),
                points_c = [\<lparr> logical = 10, price = 100 \<rparr>],
                beforeSnapshot = [], pendingHold = False \<rparr>"
  have d: "\<not> truthy (continuous (tool_c ?cd))" "maxPoints (tool_c ?cd) \<noteq> 1"
    "minPoints (tool_c ?cd) \<le> 2"
    "\<not> (pendingHold ?cd \<and> pointerType_c ?cd = Some Touch
        \<and> clock lineDrag (clockCalls lineDrag) - startedAt ?cd < holdToDrawMs (opts lineDrag))"
    by (simp_all add: mkTool_def truthy_def)
  have c: "\<not> truthy (continuous (tool_c ?cc))" "maxPoints (tool_c ?cc) \<noteq> 1"
    "minPoints (tool_c ?cc) \<le> 2"
    "\<not> (pendingHold ?cc \<and> pointerType_c ?cc = Some Touch
        \<and> clock lineClick (clockCalls lineClick) - startedAt ?cc < holdToDrawMs (opts lineClick))"
    by (simp_all add: mkTool_def truthy_def)
  have dragged: "drawings lineDrag = []" "idSource lineDrag (idCalls lineDrag) = ''a''"
    "clock lineDrag = (\<lambda>n. 1000)" "defaultStyle (opts lineDrag) = DEFAULT_STYLE"
    "history lineDrag = \<lparr> undoStack = [], redoStack = [], limit = 300 \<rparr>"
    "snapMode_opt (opts lineDrag) = SnapWeak"
    unfolding lineDrag_def lineClick_def by (simp_all add: session_eval cong: let_weak_cong)
  have clicked: "drawings lineClick = []" "snapMode_opt (opts lineClick) = SnapWeak"
    unfolding lineClick_def by (simp_all add: session_eval cong: let_weak_cong)
  note ev = mkTool_def equalPoints_def distPointPx_def hypot_le_iff EPS_def toPoint_def
    mathRound_def highestZ_def mergeStyle_def history_push_def styleChanged_def Let_def
  from two_point_creation_finishes [OF lineDrag_interaction d, of "mouseAt 20 90"]
  have a: "drawings (pointerUp (mouseAt 20 90) lineDrag) =
     [\<lparr> id_ent = ''a'', tool = ''trend_line'',
        points = [\<lparr> logical = 10, price = 100 \<rparr>, \<lparr> logical = 20, price = 90 \<rparr>],
        style = DEFAULT_STYLE, text_ent = None, visible = True, locked = False, groupId = None,
        zIndex = 0, metadata = None, createdAt = 1000, updatedAt = 1000 \<rparr>]
   \<and> selection (pointerUp (mouseAt 20 90) lineDrag) = [''a'']
   \<and> primaryId (pointerUp (mouseAt 20 90) lineDrag) = Some ''a''
   \<and> interaction (pointerUp (mouseAt 20 90) lineDrag) = Idle
   \<and> map label (undoStack (history (pointerUp (mouseAt 20 90) lineDrag))) = [''create:trend_line'']"
    by (simp add: ev dragged)
  from two_point_creation_finishes [OF lineClick_interaction c, of "mouseAt 11 100"]
  have b: "drawings (pointerUp (mouseAt 11 100) lineClick) = []
   \<and> history (pointerUp (mouseAt 11 100) lineClick) = history lineClick
   \<and> interaction (pointerUp (mouseAt 11 100) lineClick) = Idle"
    by (simp add: ev clicked)
  from a b show ?thesis by simp
qed

lemma twoLines_drawings:
  "drawings twoLines =
     [\<lparr> id_ent = ''a'', tool = ''horizontal_line'', points = [\<lparr> logical = 10, price = 100 \<rparr>],
        style = DEFAULT_STYLE, text_ent = None, visible = True, locked = False, groupId = None,
        zIndex = 0, metadata = None, createdAt = 1000, updatedAt = 1000 \<rparr>,
      \<lparr> id_ent = ''b'', tool = ''horizontal_line'', points = [\<lparr> logical = 30, price = 100 \<rparr>],
        style = DEFAULT_STYLE, text_ent = None, visible = True, locked = False, groupId = None,
        zIndex = 1, metadata = None, createdAt = 1000, updatedAt = 1000 \<rparr>]"
  "clock twoLines = (\<lambda>n. 1000)"
  unfolding twoLines_def oneLine_def by (simp_all add: session_eval cong: let_weak_cong)

theorem reorder_leaves_contiguous_zIndex_witness:
  "[''a''] \<noteq> [] \<and> distinct (map id_ent (drawings twoLines))
   \<and> map id_ent (sortedDrawings twoLines) = [''a'', ''b'']
   \<and> map zIndex (sortedDrawings (bringToFront [''a''] twoLines)) = [0, 1]
   \<and> map id_ent (sortedDrawings (bringToFront [''a''] twoLines)) = [''b'', ''a'']
   \<and> map zIndex (sortedDrawings (sendToBack [''a''] twoLines)) = [0, 1]
   \<and> map id_ent (sortedDrawings (sendToBack [''a''] twoLines)) = [''a'', ''b'']"
proof -
  have n: "[''a''] \<noteq> ([] :: string list)" by simp
  have d: "distinct (map id_ent (drawings twoLines))" by (simp add: twoLines_drawings)
  have upt: "map real [0 ..< 2] = [0, 1]" by (simp add: upt_rec)
  note ev = twoLines_drawings frontStep_def backStep_def drawings_get_def drawings_modify_def
    now_def highestZ_def sortedDrawings_def Let_def upt
  from reorder_leaves_contiguous_zIndex [OF n d] n d show ?thesis
    by (simp add: ev)
qed

theorem export_import_reproduces_drawings_witness:
  "distinct (map id_ent (drawings twoLines))
   \<and> fst (importSnapshot (exportSnapshot twoLines) (createDrawingEngine testOptions (\<lambda>n. 5) (\<lambda>n. ''z'')))
       = None
   \<and> map (\<lambda>d. (id_ent d, points d, style d, visible d, locked d))
        (drawings_v (getState (snd (importSnapshot (exportSnapshot twoLines)
                                      (createDrawingEngine testOptions (\<lambda>n. 5) (\<lambda>n. ''z''))))))
       = [(''a'', [\<lparr> logical = 10, price = 100 \<rparr>], DEFAULT_STYLE, True, False),
          (''b'', [\<lparr> logical = 30, price = 100 \<rparr>], DEFAULT_STYLE, True, False)]"
proof -
  have d: "distinct (map id_ent (drawings twoLines))" by (simp add: twoLines_drawings)
  from export_import_reproduces_drawings [OF d, of testOptions "\<lambda>n. 5" "\<lambda>n. ''z''"] d
  show ?thesis
    by (simp add: getState_def stateView_def sortedDrawings_def twoLines_drawings)
qed

end
